theory Spec2Isabelle
  imports Complex_Main "HOL-Library.Log_Nat"
begin

section \<open>Presence hub (backend/server.js)\<close>

text \<open>
  \<^verbatim>\<open>const onlineUsers = new Map();\<close> maps a user id to the record of the socket that
  registered it. A JavaScript \<^verbatim>\<open>Map\<close> keeps its entries in insertion order, and
  \<^verbatim>\<open>Array.from(onlineUsers.keys())\<close> is the list that is broadcast, so the map is an
  association list here. Nothing in the type makes the keys distinct: that is a property of
  the operations below.
\<close>

record presence =
  socketId :: string
  userId :: string
  lastSeen :: nat

type_synonym online_map = "(string \<times> presence) list"

text \<open>\<^verbatim>\<open>Map.prototype.has\<close>, \<^verbatim>\<open>delete\<close>, \<^verbatim>\<open>set\<close> and \<^verbatim>\<open>keys\<close>.
  \<^verbatim>\<open>set\<close> on a key that is present replaces the value where the entry stands; on a new key
  it adds the entry at the end.\<close>

definition map_has :: "string \<Rightarrow> online_map \<Rightarrow> bool" where
  "map_has k m = (k \<in> set (map fst m))"

definition map_delete :: "string \<Rightarrow> online_map \<Rightarrow> online_map" where
  "map_delete k m = filter (\<lambda>e. fst e \<noteq> k) m"

fun map_set :: "string \<Rightarrow> presence \<Rightarrow> online_map \<Rightarrow> online_map" where
  "map_set k v [] = [(k, v)]"
| "map_set k v (e # m) = (if fst e = k then (k, v) # m else e # map_set k v m)"

definition map_keys :: "online_map \<Rightarrow> string list" where
  "map_keys m = map fst m"

text \<open>
  \<^verbatim>\<open>socket.on('user-online', (userId) => { if (userId) { for (const [existingUserId, userData]
  of onlineUsers.entries()) { if (existingUserId === userId && userData.socketId !== socket.id)
  onlineUsers.delete(existingUserId); } onlineUsers.set(userId, {...}); ... } })\<close>

  The loop visits every entry; \<open>drop_stale\<close> is the loop, run over the entries the map
  had when it started. The first argument of each handler is \<^verbatim>\<open>socket.id\<close>, the last one
  the clock read by \<^verbatim>\<open>new Date()\<close>. An empty user id is falsy and is ignored.
\<close>

fun drop_stale :: "string \<Rightarrow> string \<Rightarrow> online_map \<Rightarrow> online_map \<Rightarrow> online_map" where
  "drop_stale sock uid [] m = m"
| "drop_stale sock uid (e # es) m =
     (if fst e = uid \<and> socketId (snd e) \<noteq> sock
      then drop_stale sock uid es (map_delete (fst e) m)
      else drop_stale sock uid es m)"

definition user_online :: "string \<Rightarrow> string \<Rightarrow> nat \<Rightarrow> online_map \<Rightarrow> online_map" where
  "user_online sock uid now m =
     (if uid = [] then m
      else map_set uid \<lparr>socketId = sock, userId = uid, lastSeen = now\<rparr>
             (drop_stale sock uid m m))"

text \<open>\<^verbatim>\<open>socket.on('user-offline', (userId) => { if (onlineUsers.has(userId))
  onlineUsers.delete(userId) ... })\<close>\<close>

definition user_offline :: "string \<Rightarrow> online_map \<Rightarrow> online_map" where
  "user_offline uid m = (if map_has uid m then map_delete uid m else m)"

text \<open>\<^verbatim>\<open>socket.on('disconnect', ...)\<close>: the first entry registered by this socket is
  removed and the loop breaks. (The handler then closes the calls of that user and
  broadcasts; neither touches \<^verbatim>\<open>onlineUsers\<close>.)\<close>

definition disconnect :: "string \<Rightarrow> online_map \<Rightarrow> online_map" where
  "disconnect sock m =
     (case find (\<lambda>e. socketId (snd e) = sock) m of
        None \<Rightarrow> m
      | Some e \<Rightarrow> map_delete (fst e) m)"

datatype socket_event =
    UserOnline string string nat
  | UserOffline string
  | Disconnect string

fun handle_event :: "socket_event \<Rightarrow> online_map \<Rightarrow> online_map" where
  "handle_event (UserOnline sock uid now) m = user_online sock uid now m"
| "handle_event (UserOffline uid) m = user_offline uid m"
| "handle_event (Disconnect sock) m = disconnect sock m"

text \<open>The events of a run, oldest first, applied to the empty map the server starts with.\<close>

definition run_events :: "socket_event list \<Rightarrow> online_map" where
  "run_events evs = fold handle_event evs []"


section \<open>Documents (backend/models, Mongoose schemas)\<close>

text \<open>
  The routes work on a document store. Each collection is a list and a document's
  \<^verbatim>\<open>_id\<close> is its position: \<^verbatim>\<open>new X(...).save()\<close> appends, so the new id is the length
  of the collection before the call, documents are never deleted, and \<^verbatim>\<open>findById\<close> of an
  id beyond the end is \<^verbatim>\<open>null\<close>.

  A number field holds a finite JavaScript \<^verbatim>\<open>Number\<close>, a double, given as the
  rational it denotes; \<^verbatim>\<open>undefined\<close> and \<^verbatim>\<open>null\<close> are \<open>None\<close>. The arithmetic of the
  routes is double arithmetic (below). A comparison with \<^verbatim>\<open>NaN\<close> (arithmetic on
  \<^verbatim>\<open>undefined\<close>) is false, which is written out where the source can reach it.
  Timestamps (\<^verbatim>\<open>respondedAt\<close>, \<^verbatim>\<open>awardedAt\<close>, \<^verbatim>\<open>priceLockedAt\<close>, \<^verbatim>\<open>lastActivity\<close>),
  read receipts, notifications, socket emissions and the optional AI summary of a message
  are left out: no check of the routes reads them.
\<close>

type_synonym id = nat

definition truthy :: "rat option \<Rightarrow> bool" where
  "truthy x = (case x of None \<Rightarrow> False | Some v \<Rightarrow> v \<noteq> 0)"

text \<open>\<^verbatim>\<open>a || b\<close> on numbers.\<close>

definition or_else :: "rat option \<Rightarrow> rat option \<Rightarrow> rat option" where
  "or_else a b = (if truthy a then a else b)"

text \<open>
  Double arithmetic. An operation on doubles gives the exact result rounded to the
  nearest double, ties to the even mantissa, and a decimal literal is read the same way.
  \<open>to_double\<close> is that rounding: for \<open>x \<noteq> 0\<close> the exponent \<open>e\<close> puts \<open>\<bar>x\<bar> / 2\<^sup>e\<close>
  between \<open>2\<^sup>5\<^sup>2\<close> and \<open>2\<^sup>5\<^sup>3\<close> (53 bits of mantissa) but is not below \<open>-1074\<close> (the
  subnormal doubles), and the mantissa is rounded to an integer. \<open>ilog2 x\<close> is
  \<open>\<lfloor>log\<^sub>2 x\<rfloor>\<close> for \<open>x > 0\<close>. A rounded magnitude of \<open>2\<^sup>1\<^sup>0\<^sup>2\<^sup>4\<close> or more, that is
  one whose \<open>ilog2\<close> is at least 1024, is an overflow, and the operation gives
  \<^verbatim>\<open>Infinity\<close> or \<^verbatim>\<open>-Infinity\<close>.
\<close>

definition pow2 :: "int \<Rightarrow> rat" where
  "pow2 e = (if 0 \<le> e then 2 ^ nat e else 1 / 2 ^ nat (- e))"

definition ilog2 :: "rat \<Rightarrow> int" where
  "ilog2 x = (if 1 \<le> x then bitlen \<lfloor>x\<rfloor> - 1 else - bitlen (\<lceil>1 / x\<rceil> - 1))"

definition round_even :: "rat \<Rightarrow> int" where
  "round_even x =
     (let f = \<lfloor>x\<rfloor>; d = x - of_int f
      in if d < 1 / 2 then f else if 1 / 2 < d then f + 1 else if even f then f else f + 1)"

definition to_double :: "rat \<Rightarrow> rat" where
  "to_double x =
     (if x = 0 then 0
      else let e = max (ilog2 \<bar>x\<bar> - 52) (- 1074)
           in sgn x * of_int (round_even (\<bar>x\<bar> / pow2 e)) * pow2 e)"

datatype number = Num rat | PlusInfinity | MinusInfinity

text \<open>\<^verbatim>\<open>a * b\<close> on two finite doubles, and \<^verbatim>\<open>r > y\<close> for a finite double \<open>r\<close>.\<close>

definition js_times :: "rat \<Rightarrow> rat \<Rightarrow> number" where
  "js_times a b =
     (let x = to_double (a * b)
      in if x = 0 then Num 0
         else if ilog2 \<bar>x\<bar> < 1024 then Num x
         else if 0 < x then PlusInfinity
         else MinusInfinity)"

definition js_greater :: "rat \<Rightarrow> number \<Rightarrow> bool" where
  "js_greater r y =
     (case y of Num x \<Rightarrow> x < r | PlusInfinity \<Rightarrow> False | MinusInfinity \<Rightarrow> True)"

text \<open>The literal \<^verbatim>\<open>1.20\<close>, and \<^verbatim>\<open>const maxAllowed = project.budgetAmount * 1.20\<close>
  (\<^verbatim>\<open>maxAllowedRate\<close> in the application route, \<^verbatim>\<open>clientBudget * 1.20\<close> in the chat
  window).\<close>

definition literal_1_20 :: rat where
  "literal_1_20 = to_double (6 / 5)"

definition maxAllowed :: "rat \<Rightarrow> number" where
  "maxAllowed budget = js_times budget literal_1_20"

text \<open>
  A timeline (\<^verbatim>\<open>proposedTimeline\<close>, \<^verbatim>\<open>offerDetails.timeline\<close>) is a string that the
  application route reads with \<^verbatim>\<open>new Date(...)\<close>: it is absent or empty (falsy), text that
  is no date (\<^verbatim>\<open>getTime()\<close> is \<^verbatim>\<open>NaN\<close>), or a date, given by its epoch milliseconds.
\<close>

datatype timeline = NoTimeline | TimelineText string | TimelineDate int

datatype user_role = RoleAdmin | RoleClient | RoleFreelancer

text \<open>The bio is a JavaScript string, that is a list of UTF-16 code units (the integers
  from 0 to 65535): \<^verbatim>\<open>length\<close> counts them and \<^verbatim>\<open>trim\<close> tests them.\<close>

record user =
  user_role :: user_role
  bio :: "int list"
  skills :: "string list"

text \<open>\<^verbatim>\<open>String.prototype.trim\<close> strips the ECMAScript white space and line terminators
  from both ends: tab, line feed, vertical tab, form feed, carriage return, space,
  U+00A0, U+1680, U+2000 to U+200A, U+2028, U+2029, U+202F, U+205F, U+3000 and U+FEFF.\<close>

definition is_space :: "int \<Rightarrow> bool" where
  "is_space c =
     (c \<in> set [0x09, 0x0A, 0x0B, 0x0C, 0x0D, 0x20, 0xA0, 0x1680, 0x2028, 0x2029, 0x202F,
                0x205F, 0x3000, 0xFEFF]
      \<or> (0x2000 \<le> c \<and> c \<le> 0x200A))"

definition trim :: "int list \<Rightarrow> int list" where
  "trim s = rev (dropWhile is_space (rev (dropWhile is_space s)))"

text \<open>\<^verbatim>\<open>userSchema.methods.isFreelancerProfileComplete\<close> (backend/models/User.js).\<close>

definition isFreelancerProfileComplete :: "user \<Rightarrow> bool" where
  "isFreelancerProfileComplete u =
     (if user_role u \<noteq> RoleFreelancer then True
      else bio u \<noteq> [] \<and> length (trim (bio u)) \<ge> 50 \<and> length (skills u) \<ge> 3)"

datatype chat_role = Client | Freelancer

datatype offer_status = OfferPending | OfferAccepted | OfferDeclined

text \<open>
  Modelled from the spec: the Project and Application schemas (models/Project.js and
  models/Application.js) are missing from the sources. The fields below are the ones the
  routes read and write; the status values are the ones of the data model,
  \<^verbatim>\<open>open | awarded | in_progress | completed | cancelled\<close> for a project and
  \<^verbatim>\<open>pending | accepted | awarded | rejected | withdrawn\<close> for an application, and a
  submitted Application starts as \<^verbatim>\<open>pending\<close>.
\<close>

datatype project_status = Open | ProjectAwarded | InProgress | Completed | Cancelled

record negotiation =
  offeredBy :: id
  offeredByRole :: "chat_role option"
  amount :: "rat option"
  neg_timeline :: timeline
  neg_status :: offer_status
  respondedBy :: id

record project =
  project_client :: id
  project_status :: project_status
  budgetAmount :: "rat option"
  deadline :: "int option"
  agreedPrice :: "rat option"
  finalRate :: "rat option"
  finalTimeline :: timeline
  awardedTo :: "id option"
  awardedApplication :: "id option"
  negotiationHistory :: "negotiation list"

datatype application_status = Pending | Accepted | Awarded | Rejected | Withdrawn

record application =
  app_project :: id
  app_freelancer :: id
  app_client :: id
  app_status :: application_status
  app_proposedRate :: "rat option"
  proposedTimeline :: timeline

datatype chat_status = Active | Closed | Archived

record participant =
  part_user :: id
  part_role :: chat_role

record chat =
  chat_project :: id
  chat_application :: id
  participants :: "participant list"
  chat_status :: chat_status
  lastMessage :: "id option"

datatype message_type = TextMessage | FileMessage | SystemMessage | OfferMessage

text \<open>
  \<^verbatim>\<open>offerDetails\<close>, without its free-text \<^verbatim>\<open>description\<close>. In the Message schema it is
  a nested path, not a sub-document: a stored message always has the object, with the
  fields that were not given \<^verbatim>\<open>undefined\<close>, so \<^verbatim>\<open>message.offerDetails\<close> is truthy for
  every message. A request may leave \<^verbatim>\<open>offerDetails\<close> out.
\<close>

record offer_details =
  od_proposedRate :: "rat option"
  od_timeline :: timeline

definition no_details :: offer_details where
  "no_details = \<lparr>od_proposedRate = None, od_timeline = NoTimeline\<rparr>"

definition stored_details :: "offer_details option \<Rightarrow> offer_details" where
  "stored_details od = (case od of None \<Rightarrow> no_details | Some d \<Rightarrow> d)"

record message =
  msg_chat :: id
  sender :: id
  content :: string
  messageType :: message_type
  offerDetails :: offer_details
  offerStatus :: "offer_status option"

record workspace =
  ws_project :: id
  ws_client :: id
  ws_freelancer :: id
  ws_application :: id

record store =
  users :: "user list"
  projects :: "project list"
  applications :: "application list"
  chats :: "chat list"
  messages :: "message list"
  workspaces :: "workspace list"

text \<open>\<^verbatim>\<open>Model.findById\<close>, \<^verbatim>\<open>findOne\<close> (the first match in collection order, with its id),
  \<^verbatim>\<open>updateMany\<close> (the filter may name the id) and \<^verbatim>\<open>countDocuments\<close>.\<close>

definition findById :: "'a list \<Rightarrow> id \<Rightarrow> 'a option" where
  "findById xs i = (if i < length xs then Some (xs ! i) else None)"

definition findOne :: "('a \<Rightarrow> bool) \<Rightarrow> 'a list \<Rightarrow> (id \<times> 'a) option" where
  "findOne q xs = find (\<lambda>e. q (snd e)) (enumerate 0 xs)"

definition updateMany :: "(id \<Rightarrow> 'a \<Rightarrow> bool) \<Rightarrow> ('a \<Rightarrow> 'a) \<Rightarrow> 'a list \<Rightarrow> 'a list" where
  "updateMany q u xs = map (\<lambda>e. if q (fst e) (snd e) then u (snd e) else snd e) (enumerate 0 xs)"

definition countDocuments :: "('a \<Rightarrow> bool) \<Rightarrow> 'a list \<Rightarrow> nat" where
  "countDocuments q xs = length (filter q xs)"

text \<open>A route answers with an HTTP status and leaves a store behind.\<close>

type_synonym reply = "nat \<times> store"


section \<open>Chat routes (\<^verbatim>\<open>/api/chats\<close>, the second router of routes/badges.js)\<close>

text \<open>\<^verbatim>\<open>chat.participants.some(p => p.user.toString() === req.user.userId)\<close> and
  \<^verbatim>\<open>chat.participants.find(...)?.role\<close>.\<close>

definition is_participant :: "chat \<Rightarrow> id \<Rightarrow> bool" where
  "is_participant c uid = list_ex (\<lambda>p. part_user p = uid) (participants c)"

definition participant_role :: "chat \<Rightarrow> id \<Rightarrow> chat_role option" where
  "participant_role c uid = map_option part_role (find (\<lambda>p. part_user p = uid) (participants c))"

text \<open>A system message written by a route, with the chat's \<^verbatim>\<open>lastMessage\<close> left alone.\<close>

definition system_message :: "id \<Rightarrow> id \<Rightarrow> string \<Rightarrow> offer_details \<Rightarrow> message" where
  "system_message chatId uid text od =
     \<lparr>msg_chat = chatId, sender = uid, content = text, messageType = SystemMessage,
      offerDetails = od, offerStatus = None\<rparr>"

definition set_lastMessage :: "id \<Rightarrow> id \<Rightarrow> store \<Rightarrow> store" where
  "set_lastMessage chatId mid s =
     s\<lparr>chats := (chats s)[chatId := (chats s ! chatId)\<lparr>lastMessage := Some mid\<rparr>]\<rparr>"

record message_request =
  req_content :: string
  req_messageType :: message_type
  req_offerDetails :: "offer_details option"

text \<open>\<^verbatim>\<open>messageType === 'offer' && offerDetails?.proposedRate\<close>: the rate the offer checks
  run on, if they run.\<close>

definition checked_rate :: "message_request \<Rightarrow> rat option" where
  "checked_rate req =
     (if req_messageType req = OfferMessage
      then (case req_offerDetails req of
              None \<Rightarrow> None
            | Some od \<Rightarrow> if truthy (od_proposedRate od) then od_proposedRate od else None)
      else None)"

text \<open>\<^verbatim>\<open>project?.agreedPrice\<close> and
  \<^verbatim>\<open>project?.budgetAmount && offerDetails.proposedRate > project.budgetAmount * 1.20\<close>.\<close>

definition price_locked :: "project option \<Rightarrow> bool" where
  "price_locked p = (case p of None \<Rightarrow> False | Some pr \<Rightarrow> truthy (agreedPrice pr))"

definition exceeds_cap :: "rat \<Rightarrow> project option \<Rightarrow> bool" where
  "exceeds_cap r p =
     (case p of
        None \<Rightarrow> False
      | Some pr \<Rightarrow> (case budgetAmount pr of
                     None \<Rightarrow> False
                   | Some b \<Rightarrow> b \<noteq> 0 \<and> js_greater r (maxAllowed b)))"

text \<open>The message is built and saved, and the chat's \<^verbatim>\<open>lastMessage\<close> set. The Message
  schema requires \<^verbatim>\<open>content\<close>: the save of a message without one throws, and the
  route's \<^verbatim>\<open>catch\<close> answers 500.\<close>

definition create_message :: "id \<Rightarrow> id \<Rightarrow> message_request \<Rightarrow> store \<Rightarrow> reply" where
  "create_message chatId uid req s =
     (if req_content req = [] then (500, s)
      else (201, set_lastMessage chatId (length (messages s))
              (s\<lparr>messages := messages s @
                   [\<lparr>msg_chat = chatId, sender = uid, content = req_content req,
                     messageType = req_messageType req,
                     offerDetails = stored_details (req_offerDetails req),
                     offerStatus = (if req_messageType req = OfferMessage
                                    then Some OfferPending else None)\<rparr>]\<rparr>)))"

text \<open>\<^verbatim>\<open>POST /api/chats/:chatId/messages\<close>\<close>

definition send_message :: "id \<Rightarrow> id \<Rightarrow> message_request \<Rightarrow> store \<Rightarrow> reply" where
  "send_message chatId uid req s =
     (if req_content req = [] \<and> req_messageType req = TextMessage then (400, s)
      else if length (req_content req) > 10000 then (400, s)
      else case findById (chats s) chatId of
        None \<Rightarrow> (404, s)
      | Some c \<Rightarrow>
          if \<not> is_participant c uid then (403, s)
          else if chat_status c = Closed then (400, s)
          else (case checked_rate req of
                  None \<Rightarrow> create_message chatId uid req s
                | Some r \<Rightarrow>
                    if price_locked (findById (projects s) (chat_project c)) then (400, s)
                    else if participant_role c uid = Some Freelancer
                            \<and> exceeds_cap r (findById (projects s) (chat_project c))
                      then (400, s)
                    else create_message chatId uid req s))"

text \<open>\<^verbatim>\<open>PUT /api/chats/:chatId/close\<close>. \<^verbatim>\<open>chat.project\<close> is populated; reading
  \<^verbatim>\<open>.client\<close> of a missing project throws.\<close>

definition close_chat :: "id \<Rightarrow> id \<Rightarrow> store \<Rightarrow> reply" where
  "close_chat chatId uid s =
     (case findById (chats s) chatId of
        None \<Rightarrow> (404, s)
      | Some c \<Rightarrow>
          (case findById (projects s) (chat_project c) of
             None \<Rightarrow> (500, s)
           | Some p \<Rightarrow>
               if project_client p \<noteq> uid then (403, s)
               else (200, s\<lparr>chats := (chats s)[chatId := c\<lparr>chat_status := Closed\<rparr>],
                             messages := messages s @
                               [system_message chatId uid
                                  ''Chat has been closed by the client.'' no_details]\<rparr>)))"

text \<open>\<^verbatim>\<open>POST /api/chats/:chatId/award\<close>: the project goes to \<^verbatim>\<open>in_progress\<close>; no
  application is touched.\<close>

definition chat_award :: "id \<Rightarrow> id \<Rightarrow> rat option \<Rightarrow> timeline \<Rightarrow> store \<Rightarrow> reply" where
  "chat_award chatId uid rate tline s =
     (case findById (chats s) chatId of
        None \<Rightarrow> (404, s)
      | Some c \<Rightarrow>
          (case findById (projects s) (chat_project c) of
             None \<Rightarrow> (500, s)
           | Some p \<Rightarrow>
               if project_client p \<noteq> uid then (403, s)
               else if project_status p = Completed then (400, s)
               else (200, set_lastMessage chatId (length (messages s))
                       (s\<lparr>projects := (projects s)[chat_project c := p\<lparr>project_status := InProgress\<rparr>],
                          messages := messages s @
                            [system_message chatId uid ''Project awarded!''
                               \<lparr>od_proposedRate = rate, od_timeline = tline\<rparr>]\<rparr>))))"

text \<open>\<^verbatim>\<open>POST /api/chats/application/:applicationId\<close>: the chat of an application is
  found or created. The application's \<^verbatim>\<open>project\<close>, \<^verbatim>\<open>freelancer\<close> and \<^verbatim>\<open>client\<close> are
  populated; reading \<^verbatim>\<open>._id\<close> of a missing one throws.\<close>

definition create_chat :: "id \<Rightarrow> id \<Rightarrow> store \<Rightarrow> reply" where
  "create_chat applicationId uid s =
     (case findById (applications s) applicationId of
        None \<Rightarrow> (404, s)
      | Some a \<Rightarrow>
          if findById (users s) (app_client a) = None then (500, s)
          else if findById (users s) (app_freelancer a) = None then (500, s)
          else if app_client a \<noteq> uid \<and> app_freelancer a \<noteq> uid then (403, s)
          else (case findOne (\<lambda>c. chat_application c = applicationId) (chats s) of
                  Some e \<Rightarrow> (200, s)
                | None \<Rightarrow>
                    if findById (projects s) (app_project a) = None then (500, s)
                    else (201, set_lastMessage (length (chats s)) (length (messages s))
                            (s\<lparr>chats := chats s @
                                 [\<lparr>chat_project = app_project a, chat_application = applicationId,
                                   participants =
                                     [\<lparr>part_user = app_client a, part_role = Client\<rparr>,
                                      \<lparr>part_user = app_freelancer a, part_role = Freelancer\<rparr>],
                                   chat_status = Active, lastMessage = None\<rparr>],
                               messages := messages s @
                                 [system_message (length (chats s)) uid
                                    ''Chat started for project'' no_details]\<rparr>))))"

text \<open>
  \<^verbatim>\<open>PUT /api/chats/messages/:messageId/respond-to-offer\<close>, in the steps the handler
  takes once the offer's status has been saved.

  The application is looked up by the chat's project and its first two participants,
  \<^verbatim>\<open>Application.findOne({project: chat.project, $or: [{freelancer:
  chat.participants[0].user}, {freelancer: chat.participants[1].user}]})\<close>, takes the
  agreed rate and timeline, and goes from \<^verbatim>\<open>pending\<close> to \<^verbatim>\<open>accepted\<close>. (The
  Application schema is missing from the sources; its \<^verbatim>\<open>save\<close> is taken to succeed
  also when the offer has no rate.)
\<close>

datatype offer_action = Accept | Decline | OtherAction

definition promote_application :: "chat \<Rightarrow> offer_details \<Rightarrow> store \<Rightarrow> store" where
  "promote_application c od s =
     (case findOne (\<lambda>a. app_project a = chat_project c
                        \<and> (app_freelancer a = part_user (participants c ! 0)
                           \<or> app_freelancer a = part_user (participants c ! 1)))
             (applications s) of
        None \<Rightarrow> s
      | Some e \<Rightarrow>
          s\<lparr>applications := (applications s)
               [fst e := (snd e)\<lparr>app_proposedRate := od_proposedRate od,
                                 proposedTimeline := od_timeline od,
                                 app_status := (if app_status (snd e) = Pending then Accepted
                                                else app_status (snd e))\<rparr>]\<rparr>)"

text \<open>One entry of \<^verbatim>\<open>project.negotiationHistory\<close>.\<close>

definition history_entry :: "chat \<Rightarrow> message \<Rightarrow> id \<Rightarrow> offer_details \<Rightarrow> offer_status \<Rightarrow> negotiation" where
  "history_entry c m uid od st =
     \<lparr>offeredBy = sender m, offeredByRole = participant_role c (sender m),
      amount = od_proposedRate od, neg_timeline = od_timeline od, neg_status = st,
      respondedBy = uid\<rparr>"

text \<open>
  The price lock on the project. The handler also sets
  \<^verbatim>\<open>project.totalProjectValue = agreedAmount + Math.max(fixedServiceCharge, (agreedAmount
  * serviceChargePercentage) / 100)\<close>, a field no route reads and which is left out here,
  but for one effect: when the offer has no rate, \<^verbatim>\<open>agreedAmount\<close> is \<^verbatim>\<open>undefined\<close>,
  the sum is \<^verbatim>\<open>NaN\<close>, Mongoose does not cast \<^verbatim>\<open>NaN\<close> to a Number and
  \<^verbatim>\<open>project.save()\<close> throws. That case is a branch of the handler below.
\<close>

definition lock_price :: "chat \<Rightarrow> message \<Rightarrow> id \<Rightarrow> offer_details \<Rightarrow> store \<Rightarrow> store" where
  "lock_price c m uid od s =
     (case findById (projects s) (chat_project c) of
        None \<Rightarrow> s
      | Some p \<Rightarrow>
          s\<lparr>projects := (projects s)
               [chat_project c :=
                  p\<lparr>agreedPrice := od_proposedRate od,
                    finalRate := od_proposedRate od,
                    budgetAmount := od_proposedRate od,
                    finalTimeline := od_timeline od,
                    negotiationHistory :=
                      negotiationHistory p @ [history_entry c m uid od OfferAccepted]\<rparr>]\<rparr>)"

text \<open>\<^verbatim>\<open>Message.updateMany({chat: message.chat._id, messageType: 'offer', offerStatus:
  'pending', _id: {$ne: message._id}}, {offerStatus: 'declined'})\<close>\<close>

definition decline_other_offers :: "id \<Rightarrow> id \<Rightarrow> store \<Rightarrow> store" where
  "decline_other_offers chatId messageId s =
     s\<lparr>messages :=
         updateMany (\<lambda>i x. msg_chat x = chatId \<and> messageType x = OfferMessage
                            \<and> offerStatus x = Some OfferPending \<and> i \<noteq> messageId)
                    (\<lambda>x. x\<lparr>offerStatus := Some OfferDeclined\<rparr>) (messages s)\<rparr>"

definition record_decline :: "chat \<Rightarrow> message \<Rightarrow> id \<Rightarrow> offer_details \<Rightarrow> store \<Rightarrow> store" where
  "record_decline c m uid od s =
     (case findById (projects s) (chat_project c) of
        None \<Rightarrow> s
      | Some p \<Rightarrow>
          s\<lparr>projects := (projects s)
               [chat_project c :=
                  p\<lparr>negotiationHistory :=
                      negotiationHistory p @ [history_entry c m uid od OfferDeclined]\<rparr>]\<rparr>)"

text \<open>The closing system message; the chat's \<^verbatim>\<open>lastMessage\<close> is not updated by this
  route.\<close>

definition response_message :: "id \<Rightarrow> id \<Rightarrow> offer_action \<Rightarrow> store \<Rightarrow> store" where
  "response_message chatId uid action s =
     s\<lparr>messages := messages s @
         [system_message chatId uid
            (if action = Accept then ''Offer accepted'' else ''Offer declined'') no_details]\<rparr>"

text \<open>
  The handler. \<^verbatim>\<open>message.chat\<close> and \<^verbatim>\<open>message.sender\<close> are populated, and reading
  \<^verbatim>\<open>._id\<close> of a missing one throws (500). Once the offer's new status is saved, an
  exception leaves the writes made so far behind: \<^verbatim>\<open>chat.participants[1].user\<close> on a
  chat with fewer than two participants, and \<^verbatim>\<open>project.save()\<close> for an accepted offer
  without a rate, after the application has been saved. The guards
  \<^verbatim>\<open>action === 'accept' && message.offerDetails\<close> and
  \<^verbatim>\<open>action === 'decline' && message.offerDetails\<close> depend on the action only.
\<close>

definition respond_to_offer :: "id \<Rightarrow> id \<Rightarrow> offer_action \<Rightarrow> store \<Rightarrow> reply" where
  "respond_to_offer messageId uid action s =
     (if action = OtherAction then (400, s)
      else case findById (messages s) messageId of
        None \<Rightarrow> (404, s)
      | Some m \<Rightarrow>
          if messageType m \<noteq> OfferMessage then (400, s)
          else if offerStatus m \<noteq> Some OfferPending then (400, s)
          else (case findById (chats s) (msg_chat m) of
                  None \<Rightarrow> (500, s)
                | Some c \<Rightarrow>
                    if \<not> is_participant c uid then (403, s)
                    else if findById (users s) (sender m) = None then (500, s)
                    else if sender m = uid then (400, s)
                    else
                      (let s1 = s\<lparr>messages := (messages s)
                                   [messageId := m\<lparr>offerStatus :=
                                      Some (if action = Accept then OfferAccepted
                                            else OfferDeclined)\<rparr>]\<rparr>
                       in if action = Accept
                          then (if length (participants c) < 2 then (500, s1)
                                else (let s2 = promote_application c (offerDetails m) s1
                                      in if findById (projects s2) (chat_project c) \<noteq> None
                                              \<and> od_proposedRate (offerDetails m) = None
                                           then (500, s2)
                                         else (200, response_message (msg_chat m) uid action
                                                 (decline_other_offers (msg_chat m) messageId
                                                   (lock_price c m uid (offerDetails m) s2)))))
                          else (200, response_message (msg_chat m) uid action
                                  (record_decline c m uid (offerDetails m) s1)))))"


section \<open>Application routes (routes/applications.js)\<close>

record application_request =
  req_projectId :: "id option"
  req_coverLetter :: string
  req_proposedRate :: "rat option"
  req_proposedTimeline :: timeline

text \<open>\<^verbatim>\<open>const maxAllowedRate = project.budgetAmount * 1.20\<close> and
  \<^verbatim>\<open>parseFloat(proposedRate) > maxAllowedRate\<close>: false when the project has no budget
  amount (\<^verbatim>\<open>NaN\<close>).\<close>

definition rate_too_high :: "rat option \<Rightarrow> project \<Rightarrow> bool" where
  "rate_too_high r p =
     (case (r, budgetAmount p) of
        (Some x, Some b) \<Rightarrow> js_greater x (maxAllowed b)
      | _ \<Rightarrow> False)"

text \<open>\<^verbatim>\<open>project.deadline && proposedTimeline && !isNaN(proposedDate.getTime()) &&
  proposedDate > deadlineDate\<close>\<close>

definition past_deadline :: "timeline \<Rightarrow> project \<Rightarrow> bool" where
  "past_deadline t p =
     (case (deadline p, t) of
        (Some d, TimelineDate x) \<Rightarrow> x > d
      | _ \<Rightarrow> False)"

text \<open>\<^verbatim>\<open>POST /api/applications\<close>. The project's \<^verbatim>\<open>client\<close> is populated, and
  \<^verbatim>\<open>project.client._id\<close> in the new document throws when that user is missing.\<close>

definition submit :: "id \<Rightarrow> application_request \<Rightarrow> store \<Rightarrow> reply" where
  "submit uid req s =
     (case findById (users s) uid of
        None \<Rightarrow> (404, s)
      | Some freelancer \<Rightarrow>
          if \<not> isFreelancerProfileComplete freelancer then (400, s)
          else (case req_projectId req of
                  None \<Rightarrow> (400, s)
                | Some projectId \<Rightarrow>
                    if req_coverLetter req = [] \<or> \<not> truthy (req_proposedRate req)
                         \<or> req_proposedTimeline req = NoTimeline
                      then (400, s)
                    else (case findById (projects s) projectId of
                      None \<Rightarrow> (404, s)
                    | Some p \<Rightarrow>
                        if project_status p \<noteq> Open then (400, s)
                        else if rate_too_high (req_proposedRate req) p then (400, s)
                        else if past_deadline (req_proposedTimeline req) p then (400, s)
                        else if findOne (\<lambda>a. app_project a = projectId
                                              \<and> app_freelancer a = uid) (applications s) \<noteq> None
                          then (400, s)
                        else if countDocuments (\<lambda>a. app_freelancer a = uid
                                      \<and> (app_status a = Accepted \<or> app_status a = Awarded))
                                  (applications s) \<ge> 5
                          then (400, s)
                        else if findById (users s) (project_client p) = None then (500, s)
                        else (201, s\<lparr>applications := applications s @
                                       [\<lparr>app_project = projectId,
                                         app_freelancer = uid,
                                         app_client = project_client p,
                                         app_status = Pending,
                                         app_proposedRate = req_proposedRate req,
                                         proposedTimeline = req_proposedTimeline req\<rparr>]\<rparr>))))"

text \<open>\<^verbatim>\<open>DELETE /api/applications/:applicationId\<close>\<close>

definition withdraw :: "id \<Rightarrow> id \<Rightarrow> store \<Rightarrow> reply" where
  "withdraw applicationId uid s =
     (case findById (applications s) applicationId of
        None \<Rightarrow> (404, s)
      | Some a \<Rightarrow>
          if app_freelancer a \<noteq> uid then (403, s)
          else if app_status a \<noteq> Pending then (400, s)
          else (200, s\<lparr>applications :=
                         (applications s)[applicationId := a\<lparr>app_status := Withdrawn\<rparr>]\<rparr>))"

text \<open>
  The three routes that award share, word for word, the update of the project and the
  rejection of the other applications:
  \<^verbatim>\<open>project.finalRate = project.agreedPrice || application.proposedRate\<close>,
  \<^verbatim>\<open>if (project.agreedPrice) project.budgetAmount = project.agreedPrice\<close>, and
  \<^verbatim>\<open>Application.updateMany({project, _id: {$ne: applicationId}, status: {$in: ['pending',
  'accepted']}}, {status: 'rejected'})\<close>.
\<close>

definition award_project :: "id \<Rightarrow> application \<Rightarrow> project \<Rightarrow> project" where
  "award_project applicationId a p =
     p\<lparr>project_status := ProjectAwarded,
       awardedTo := Some (app_freelancer a),
       awardedApplication := Some applicationId,
       finalRate := or_else (agreedPrice p) (app_proposedRate a),
       finalTimeline := proposedTimeline a,
       budgetAmount := (if truthy (agreedPrice p) then agreedPrice p else budgetAmount p)\<rparr>"

definition reject_others :: "id \<Rightarrow> id \<Rightarrow> application list \<Rightarrow> application list" where
  "reject_others projectId applicationId apps =
     updateMany (\<lambda>i a. app_project a = projectId \<and> i \<noteq> applicationId
                        \<and> (app_status a = Pending \<or> app_status a = Accepted))
                (\<lambda>a. a\<lparr>app_status := Rejected\<rparr>) apps"

text \<open>\<^verbatim>\<open>Chat.findOne({application})\<close>, or a new chat of the client and the freelancer;
  then the system message that announces the award, which becomes the chat's
  \<^verbatim>\<open>lastMessage\<close>. The second argument is the user written as the client participant,
  which differs between the routes.\<close>

definition award_chat :: "id \<Rightarrow> id \<Rightarrow> application \<Rightarrow> id \<Rightarrow> store \<Rightarrow> store" where
  "award_chat applicationId client a uid s =
     (let found = findOne (\<lambda>c. chat_application c = applicationId) (chats s);
          chatId = (case found of None \<Rightarrow> length (chats s) | Some e \<Rightarrow> fst e);
          s1 = (case found of
                  Some e \<Rightarrow> s
                | None \<Rightarrow>
                    s\<lparr>chats := chats s @
                        [\<lparr>chat_project = app_project a, chat_application = applicationId,
                          participants =
                            [\<lparr>part_user = client, part_role = Client\<rparr>,
                             \<lparr>part_user = app_freelancer a, part_role = Freelancer\<rparr>],
                          chat_status = Active, lastMessage = None\<rparr>]\<rparr>)
      in set_lastMessage chatId (length (messages s1))
           (s1\<lparr>messages := messages s1 @
                 [system_message chatId uid ''Congratulations! Project awarded'' no_details]\<rparr>))"

text \<open>\<^verbatim>\<open>Workspace.findOne({project})\<close>, or a new workspace.\<close>

definition award_workspace :: "id \<Rightarrow> application \<Rightarrow> project \<Rightarrow> store \<Rightarrow> store" where
  "award_workspace applicationId a p s =
     (case findOne (\<lambda>w. ws_project w = app_project a) (workspaces s) of
        Some e \<Rightarrow> s
      | None \<Rightarrow>
          s\<lparr>workspaces := workspaces s @
              [\<lparr>ws_project = app_project a, ws_client = project_client p,
                ws_freelancer = app_freelancer a, ws_application = applicationId\<rparr>]\<rparr>)"

datatype decision = AcceptApplication | RejectApplication | OtherDecision

text \<open>
  \<^verbatim>\<open>PUT /api/applications/:applicationId/respond\<close>. The application's \<^verbatim>\<open>project\<close> and
  \<^verbatim>\<open>freelancer\<close> are populated. On accept, \<^verbatim>\<open>application.freelancer._id\<close> is read before
  anything is saved, so a missing freelancer ends the call with nothing written. The
  application itself is saved last.
\<close>

definition respond :: "id \<Rightarrow> id \<Rightarrow> decision \<Rightarrow> store \<Rightarrow> reply" where
  "respond applicationId uid action s =
     (if action = OtherDecision then (400, s)
      else case findById (applications s) applicationId of
        None \<Rightarrow> (404, s)
      | Some a \<Rightarrow>
          (case findById (projects s) (app_project a) of
             None \<Rightarrow> (500, s)
           | Some p \<Rightarrow>
               if project_client p \<noteq> uid then (403, s)
               else if \<not> (app_status a = Pending \<or> app_status a = Accepted) then (400, s)
               else if action = RejectApplication
                 then (200, s\<lparr>applications :=
                                (applications s)[applicationId := a\<lparr>app_status := Rejected\<rparr>]\<rparr>)
               else if findById (users s) (app_freelancer a) = None then (500, s)
               else
                 (let s1 = s\<lparr>projects := (projects s)
                              [app_project a := award_project applicationId a p]\<rparr>;
                      s2 = s1\<lparr>applications :=
                                reject_others (app_project a) applicationId (applications s1)\<rparr>;
                      s3 = award_chat applicationId (app_client a) a uid s2
                  in (200, s3\<lparr>applications :=
                                (applications s3)
                                  [applicationId := a\<lparr>app_status := Awarded\<rparr>]\<rparr>))))"

text \<open>\<^verbatim>\<open>PUT /api/applications/:applicationId/status\<close>: as above, with the project's
  client as the chat participant and the workspace found or created.\<close>

definition update_status :: "id \<Rightarrow> id \<Rightarrow> decision \<Rightarrow> store \<Rightarrow> reply" where
  "update_status applicationId uid status s =
     (if status = OtherDecision then (400, s)
      else case findById (applications s) applicationId of
        None \<Rightarrow> (404, s)
      | Some a \<Rightarrow>
          (case findById (projects s) (app_project a) of
             None \<Rightarrow> (500, s)
           | Some p \<Rightarrow>
               if project_client p \<noteq> uid then (403, s)
               else if \<not> (app_status a = Pending \<or> app_status a = Accepted) then (400, s)
               else if status = RejectApplication
                 then (200, s\<lparr>applications :=
                                (applications s)[applicationId := a\<lparr>app_status := Rejected\<rparr>]\<rparr>)
               else if findById (users s) (app_freelancer a) = None then (500, s)
               else
                 (let s1 = s\<lparr>projects := (projects s)
                              [app_project a := award_project applicationId a p]\<rparr>;
                      s2 = s1\<lparr>applications :=
                                reject_others (app_project a) applicationId (applications s1)\<rparr>;
                      s3 = award_chat applicationId (project_client p) a uid s2;
                      s4 = award_workspace applicationId a p s3
                  in (200, s4\<lparr>applications :=
                                (applications s4)
                                  [applicationId := a\<lparr>app_status := Awarded\<rparr>]\<rparr>))))"

text \<open>
  \<^verbatim>\<open>PUT /api/applications/:applicationId/award\<close>. Here the application's \<^verbatim>\<open>client\<close> is
  populated too, the project must not be \<^verbatim>\<open>awarded\<close> or \<^verbatim>\<open>in_progress\<close>, and the
  application is saved first: a missing freelancer ends the call after that write.
\<close>

definition award :: "id \<Rightarrow> id \<Rightarrow> store \<Rightarrow> reply" where
  "award applicationId uid s =
     (case findById (applications s) applicationId of
        None \<Rightarrow> (404, s)
      | Some a \<Rightarrow>
          if findById (users s) (app_client a) = None then (500, s)
          else if app_client a \<noteq> uid then (403, s)
          else if \<not> (app_status a = Accepted \<or> app_status a = Pending) then (400, s)
          else (case findById (projects s) (app_project a) of
                  None \<Rightarrow> (500, s)
                | Some p \<Rightarrow>
                    if project_status p = ProjectAwarded \<or> project_status p = InProgress
                      then (400, s)
                    else
                      (let s1 = s\<lparr>applications :=
                                   (applications s)
                                     [applicationId := a\<lparr>app_status := Awarded\<rparr>]\<rparr>
                       in if findById (users s) (app_freelancer a) = None then (500, s1)
                          else
                            (let s2 = s1\<lparr>projects := (projects s1)
                                         [app_project a := award_project applicationId a p]\<rparr>;
                                 s3 = s2\<lparr>applications :=
                                           reject_others (app_project a) applicationId
                                             (applications s2)\<rparr>
                             in (200, award_chat applicationId (app_client a) a uid s3)))))"


section \<open>The chat window's offer form (frontend, \<^verbatim>\<open>handleSendOffer\<close>)\<close>

text \<open>
  The client side of sending an offer, in the chat component: the form's rate and
  completion date, the component's \<^verbatim>\<open>priceLocked\<close> state, the user's role and
  \<^verbatim>\<open>chat?.project\<close>. A failed check shows a toast and sends nothing (\<open>None\<close>);
  otherwise the request is handed to \<^verbatim>\<open>sendMessage\<close>. The checks are, in order: both
  fields filled in, the price lock, the freelancer's cap of 20% above the budget, and
  "Validate timeline date is not past project deadline":
  \<^verbatim>\<open>if (chat?.project?.deadline && offerDetails.timeline) { ... if (proposedDate > deadline)
  { toast.error(...); return; } }\<close>.
\<close>

definition handleSendOffer ::
    "rat option \<Rightarrow> timeline \<Rightarrow> bool \<Rightarrow> user_role \<Rightarrow> project option \<Rightarrow> message_request option" where
  "handleSendOffer rate tline priceLocked userRole project =
     (case rate of
        None \<Rightarrow> None
      | Some r \<Rightarrow>
          if tline = NoTimeline then None
          else if priceLocked then None
          else if userRole = RoleFreelancer \<and> exceeds_cap r project then None
          else if (case project of None \<Rightarrow> False | Some p \<Rightarrow> past_deadline tline p) then None
          else Some \<lparr>req_content = ''New offer'', req_messageType = OfferMessage,
                     req_offerDetails = Some \<lparr>od_proposedRate = Some r, od_timeline = tline\<rparr>\<rparr>)"


section \<open>Runs of requests\<close>

datatype request =
    Submit id application_request
  | Respond id id decision
  | UpdateStatus id id decision
  | Withdraw id id
  | Award id id
  | CreateChat id id
  | SendMessage id id message_request
  | RespondToOffer id id offer_action
  | CloseChat id id
  | ChatAward id id "rat option" timeline

fun handle :: "request \<Rightarrow> store \<Rightarrow> reply" where
  "handle (Submit uid req) s = submit uid req s"
| "handle (Respond aid uid d) s = respond aid uid d s"
| "handle (UpdateStatus aid uid d) s = update_status aid uid d s"
| "handle (Withdraw aid uid) s = withdraw aid uid s"
| "handle (Award aid uid) s = award aid uid s"
| "handle (CreateChat aid uid) s = create_chat aid uid s"
| "handle (SendMessage cid uid req) s = send_message cid uid req s"
| "handle (RespondToOffer mid uid act) s = respond_to_offer mid uid act s"
| "handle (CloseChat cid uid) s = close_chat cid uid s"
| "handle (ChatAward cid uid r t) s = chat_award cid uid r t s"

text \<open>The store after a list of requests, served one after the other, oldest first.\<close>

definition run :: "request list \<Rightarrow> store \<Rightarrow> store" where
  "run reqs s = fold (\<lambda>r st. snd (handle r st)) reqs s"


section \<open>Measures and invariants\<close>

text \<open>The offers of a chat that still wait for an answer.\<close>

definition pending_offers :: "id \<Rightarrow> store \<Rightarrow> nat" where
  "pending_offers chatId s =
     countDocuments (\<lambda>x. msg_chat x = chatId \<and> messageType x = OfferMessage
                          \<and> offerStatus x = Some OfferPending) (messages s)"

text \<open>The applications of a project that are awarded.\<close>

definition awarded_count :: "id \<Rightarrow> store \<Rightarrow> nat" where
  "awarded_count p s =
     countDocuments (\<lambda>a. app_project a = p \<and> app_status a = Awarded) (applications s)"

text \<open>
  The invariant behind the single award. Every application names a freelancer that
  exists (the award route saves the application before it reads the freelancer), and an
  awarded application has a project that is no longer open and no sibling that is still
  pending, accepted or awarded.
\<close>

definition project_not_open :: "store \<Rightarrow> id \<Rightarrow> bool" where
  "project_not_open s p =
     (case findById (projects s) p of None \<Rightarrow> True | Some pr \<Rightarrow> project_status pr \<noteq> Open)"

definition award_inv :: "store \<Rightarrow> bool" where
  "award_inv s =
     (\<forall>i < length (applications s).
        app_freelancer (applications s ! i) < length (users s) \<and>
        (app_status (applications s ! i) = Awarded \<longrightarrow>
           project_not_open s (app_project (applications s ! i)) \<and>
           (\<forall>j < length (applications s).
              j \<noteq> i \<longrightarrow>
              app_project (applications s ! j) = app_project (applications s ! i) \<longrightarrow>
              app_status (applications s ! j) = Rejected
                \<or> app_status (applications s ! j) = Withdrawn)))"

text \<open>
  The two kinds of step a request can take. A quiet step awards nothing: users and
  projects keep their number, no project is reopened, an application keeps its project and
  freelancer and changes status only from pending or accepted and never to awarded, and a
  new application is not awarded and belongs to an open project. An award step awards one
  pending or accepted application, rejects its pending and accepted siblings and marks the
  project awarded.
\<close>

definition quiet_step :: "store \<Rightarrow> store \<Rightarrow> bool" where
  "quiet_step s s' =
     (length (users s') = length (users s) \<and>
      length (projects s') = length (projects s) \<and>
      length (applications s) \<le> length (applications s') \<and>
      (\<forall>k < length (projects s).
         project_status (projects s' ! k) = project_status (projects s ! k)
           \<or> project_status (projects s' ! k) \<noteq> Open) \<and>
      (\<forall>i < length (applications s).
         app_project (applications s' ! i) = app_project (applications s ! i) \<and>
         app_freelancer (applications s' ! i) = app_freelancer (applications s ! i) \<and>
         (app_status (applications s' ! i) = app_status (applications s ! i)
            \<or> (app_status (applications s ! i) = Pending
                  \<or> app_status (applications s ! i) = Accepted)
               \<and> app_status (applications s' ! i) \<noteq> Awarded)) \<and>
      (\<forall>i < length (applications s').
         length (applications s) \<le> i \<longrightarrow>
         app_status (applications s' ! i) = Pending \<and>
         app_freelancer (applications s' ! i) < length (users s) \<and>
         \<not> project_not_open s (app_project (applications s' ! i))))"

definition award_step :: "id \<Rightarrow> store \<Rightarrow> store \<Rightarrow> bool" where
  "award_step aid s s' =
     (aid < length (applications s) \<and>
      (app_status (applications s ! aid) = Pending
         \<or> app_status (applications s ! aid) = Accepted) \<and>
      length (users s') = length (users s) \<and>
      length (projects s') = length (projects s) \<and>
      length (applications s') = length (applications s) \<and>
      (\<forall>k < length (projects s).
         project_status (projects s' ! k) =
           (if k = app_project (applications s ! aid) then ProjectAwarded
            else project_status (projects s ! k))) \<and>
      (\<forall>i < length (applications s).
         app_project (applications s' ! i) = app_project (applications s ! i) \<and>
         app_freelancer (applications s' ! i) = app_freelancer (applications s ! i) \<and>
         app_status (applications s' ! i) =
           (if i = aid then Awarded
            else if app_project (applications s ! i) = app_project (applications s ! aid)
                    \<and> (app_status (applications s ! i) = Pending
                         \<or> app_status (applications s ! i) = Accepted)
              then Rejected
            else app_status (applications s ! i))))"


section \<open>Example stores\<close>

text \<open>A client (user 0), two freelancers with complete profiles (users 1 and 2) and one
  open project of the client, with the given budget and deadline.\<close>

definition example_client :: user where
  "example_client = \<lparr>user_role = RoleClient, bio = [], skills = []\<rparr>"

definition example_freelancer :: user where
  "example_freelancer =
     \<lparr>user_role = RoleFreelancer, bio = replicate 50 97,
      skills = [''a'', ''b'', ''c'']\<rparr>"

definition example_project :: "rat option \<Rightarrow> int option \<Rightarrow> project" where
  "example_project budget dl =
     \<lparr>project_client = 0, project_status = Open, budgetAmount = budget, deadline = dl,
      agreedPrice = None, finalRate = None, finalTimeline = NoTimeline, awardedTo = None,
      awardedApplication = None, negotiationHistory = []\<rparr>"

definition example_store :: "rat option \<Rightarrow> int option \<Rightarrow> store" where
  "example_store budget dl =
     \<lparr>users = [example_client, example_freelancer, example_freelancer],
      projects = [example_project budget dl], applications = [], chats = [], messages = [],
      workspaces = []\<rparr>"

definition example_application :: "rat \<Rightarrow> application_request" where
  "example_application r =
     \<lparr>req_projectId = Some 0, req_coverLetter = ''cover letter'', req_proposedRate = Some r,
      req_proposedTimeline = TimelineText ''two weeks''\<rparr>"

definition example_offer :: "rat \<Rightarrow> timeline \<Rightarrow> message_request" where
  "example_offer r t =
     \<lparr>req_content = ''offer'', req_messageType = OfferMessage,
      req_offerDetails = Some \<lparr>od_proposedRate = Some r, od_timeline = t\<rparr>\<rparr>"

definition two_chats :: "request list" where
  "two_chats =
     [Submit 1 (example_application 1100), Submit 2 (example_application 900),
      CreateChat 0 0, CreateChat 1 0,
      SendMessage 0 1 (example_offer 800 NoTimeline),
      SendMessage 1 0 (example_offer 900 NoTimeline)]"

definition two_applications :: "request list" where
  "two_applications =
     [Submit 1 (example_application 1100), Submit 2 (example_application 900)]"

definition closed_chat :: "request list" where
  "closed_chat = [Submit 1 (example_application 1100), CreateChat 0 0, CloseChat 0 0]"

definition one_chat :: "request list" where
  "one_chat = [Submit 1 (example_application 1100), CreateChat 0 0]"

definition two_offers :: "request list" where
  "two_offers =
     one_chat @ [SendMessage 0 1 (example_offer 800 NoTimeline),
                 SendMessage 0 0 (example_offer 900 NoTimeline)]"

definition late_offer :: message_request where
  "late_offer = example_offer 800 (TimelineDate 200)"

text \<open>A store in which the routes themselves have made the budget 0: in the chat the
  client offers the rate 0 (no check runs on a falsy rate), the freelancer accepts, and
  the acceptance writes \<^verbatim>\<open>project.budgetAmount = agreedAmount\<close>. The agreed price 0 is
  falsy, so the price does not count as locked.\<close>

definition zero_budget_store :: store where
  "zero_budget_store =
     run (one_chat @ [SendMessage 0 0 (example_offer 0 (TimelineText ''one week'')),
                      RespondToOffer 1 1 Accept])
       (example_store (Some 1000) None)"


section \<open>Presence: proofs\<close>

lemma map_keys_delete: "map_keys (map_delete k m) = filter (\<lambda>x. x \<noteq> k) (map_keys m)"
  by (induction m) (auto simp: map_delete_def map_keys_def)

lemma distinct_map_delete: "distinct (map_keys m) \<Longrightarrow> distinct (map_keys (map_delete k m))"
  by (simp add: map_keys_delete)

lemma set_map_keys_set: "set (map_keys (map_set k v m)) = insert k (set (map_keys m))"
  by (induction m) (auto simp: map_keys_def)

lemma map_keys_Cons: "map_keys (e # m) = fst e # map_keys m"
  by (simp add: map_keys_def)

lemma distinct_map_set: "distinct (map_keys m) \<Longrightarrow> distinct (map_keys (map_set k v m))"
proof (induction m)
  case Nil
  then show ?case by (simp add: map_keys_def)
next
  case (Cons e m)
  then show ?case
    by (auto simp: map_keys_Cons set_map_keys_set)
qed

lemma distinct_drop_stale:
  "distinct (map_keys m) \<Longrightarrow> distinct (map_keys (drop_stale sock uid es m))"
  by (induction es arbitrary: m) (auto simp: distinct_map_delete)

lemma map_of_map_set: "map_of (map_set k v m) k = Some v"
  by (induction m) auto

lemma distinct_handle_event:
  assumes "distinct (map_keys m)"
  shows "distinct (map_keys (handle_event ev m))"
proof (cases ev)
  case (UserOnline sock uid now)
  with assms show ?thesis
    by (simp add: user_online_def distinct_map_set distinct_drop_stale)
next
  case (UserOffline uid)
  with assms show ?thesis
    by (simp add: user_offline_def distinct_map_delete)
next
  case (Disconnect sock)
  with assms show ?thesis
    by (simp add: disconnect_def distinct_map_delete split: option.splits)
qed

lemma distinct_fold_handle_event:
  "distinct (map_keys m) \<Longrightarrow> distinct (map_keys (fold handle_event evs m))"
  by (induction evs arbitrary: m) (auto simp: distinct_handle_event)

lemma distinct_run_events: "distinct (map_keys (run_events evs))"
proof -
  have "distinct (map_keys [])"
    by (simp add: map_keys_def)
  then show ?thesis
    unfolding run_events_def by (rule distinct_fold_handle_event)
qed

lemma count_list_distinct_mem:
  "distinct xs \<Longrightarrow> x \<in> set xs \<Longrightarrow> count_list xs x = 1"
  by (induction xs) (auto simp: count_list_0_iff)

text \<open>
  Claim C9. After any run of \<^verbatim>\<open>user-online\<close>, \<^verbatim>\<open>user-offline\<close> and disconnect events the
  broadcast list \<^verbatim>\<open>Array.from(onlineUsers.keys())\<close> holds no user id twice. When a socket
  then registers a non-empty user id, whether or not that user is already online through
  another socket, the list holds that id exactly once and its entry is the new socket's:
  the later registration wins.
\<close>

theorem presence_unique_last_writer_wins:
  "distinct (map_keys (run_events evs)) \<and>
   (uid \<noteq> [] \<longrightarrow>
      count_list (map_keys (user_online sock uid now (run_events evs))) uid = 1 \<and>
      map_of (user_online sock uid now (run_events evs)) uid
        = Some \<lparr>socketId = sock, userId = uid, lastSeen = now\<rparr>)"
proof -
  have d: "distinct (map_keys (run_events evs))"
    by (rule distinct_run_events)
  have "distinct (map_keys (handle_event (UserOnline sock uid now) (run_events evs)))"
    using d by (rule distinct_handle_event)
  then have d': "distinct (map_keys (user_online sock uid now (run_events evs)))"
    by simp
  have "uid \<noteq> [] \<Longrightarrow> uid \<in> set (map_keys (user_online sock uid now (run_events evs)))"
    by (simp add: user_online_def set_map_keys_set)
  with d' have "uid \<noteq> [] \<Longrightarrow>
      count_list (map_keys (user_online sock uid now (run_events evs))) uid = 1"
    by (rule count_list_distinct_mem)
  moreover have "uid \<noteq> [] \<Longrightarrow> map_of (user_online sock uid now (run_events evs)) uid
        = Some \<lparr>socketId = sock, userId = uid, lastSeen = now\<rparr>"
    by (simp add: user_online_def map_of_map_set)
  ultimately show ?thesis
    using d by simp
qed

theorem presence_unique_last_writer_wins_witness:
  "map_keys (user_online ''s2'' ''u'' 2 (run_events [UserOnline ''s1'' ''u'' 1])) = [''u''] \<and>
   map_of (user_online ''s2'' ''u'' 2 (run_events [UserOnline ''s1'' ''u'' 1])) ''u''
     = Some \<lparr>socketId = ''s2'', userId = ''u'', lastSeen = 2\<rparr>"
  using presence_unique_last_writer_wins [of "[UserOnline ''s1'' ''u'' 1]" "''u''" "''s2''" 2]
  by (simp add: run_events_def user_online_def map_keys_def map_delete_def)


section \<open>The store: basic facts\<close>

lemma findById_Some_iff: "findById xs i = Some x \<longleftrightarrow> i < length xs \<and> xs ! i = x"
  by (auto simp: findById_def)

lemma findById_None_iff: "findById xs i = None \<longleftrightarrow> \<not> i < length xs"
  by (simp add: findById_def)

lemma length_updateMany [simp]: "length (updateMany q u xs) = length xs"
  by (simp add: updateMany_def)

lemma nth_updateMany:
  "i < length xs \<Longrightarrow> updateMany q u xs ! i = (if q i (xs ! i) then u (xs ! i) else xs ! i)"
  by (simp add: updateMany_def nth_enumerate_eq)

lemma findOne_Some:
  "findOne q xs = Some e \<Longrightarrow> fst e < length xs \<and> snd e = xs ! fst e \<and> q (xs ! fst e)"
  by (auto simp: findOne_def find_Some_iff nth_enumerate_eq)

lemma findOne_Some_first:
  "findOne q xs = Some e \<Longrightarrow> j < fst e \<Longrightarrow> \<not> q (xs ! j)"
  by (auto simp: findOne_def find_Some_iff nth_enumerate_eq)

lemma findOne_None_iff: "findOne q xs = None \<longleftrightarrow> (\<forall>i < length xs. \<not> q (xs ! i))"
proof
  assume n: "findOne q xs = None"
  show "\<forall>i < length xs. \<not> q (xs ! i)"
  proof (intro allI impI)
    fix i assume "i < length xs"
    then have "(i, xs ! i) \<in> set (enumerate 0 xs)"
      by (simp add: in_set_enumerate_eq)
    with n show "\<not> q (xs ! i)"
      by (fastforce simp: findOne_def find_None_iff)
  qed
next
  assume "\<forall>i < length xs. \<not> q (xs ! i)"
  then show "findOne q xs = None"
    by (auto simp: findOne_def find_None_iff in_set_enumerate_eq)
qed

lemma findById_nth: "i < length xs \<Longrightarrow> findById xs i = Some (xs ! i)"
  by (simp add: findById_def)

lemma reply_eq: "fst (f s) = c \<Longrightarrow> f s = (c, snd (f s))"
  by (simp add: prod_eq_iff)

lemma set_lastMessage_fields [simp]:
  "users (set_lastMessage c m s) = users s"
  "projects (set_lastMessage c m s) = projects s"
  "applications (set_lastMessage c m s) = applications s"
  "messages (set_lastMessage c m s) = messages s"
  "workspaces (set_lastMessage c m s) = workspaces s"
  "length (chats (set_lastMessage c m s)) = length (chats s)"
  by (simp_all add: set_lastMessage_def)

lemma award_chat_fields [simp]:
  "users (award_chat aid cl a uid s) = users s"
  "projects (award_chat aid cl a uid s) = projects s"
  "applications (award_chat aid cl a uid s) = applications s"
  "workspaces (award_chat aid cl a uid s) = workspaces s"
  by (simp_all add: award_chat_def Let_def split: option.splits)

lemma award_workspace_fields [simp]:
  "users (award_workspace aid a p s) = users s"
  "projects (award_workspace aid a p s) = projects s"
  "applications (award_workspace aid a p s) = applications s"
  "chats (award_workspace aid a p s) = chats s"
  "messages (award_workspace aid a p s) = messages s"
  by (simp_all add: award_workspace_def split: option.splits)

lemma length_reject_others [simp]: "length (reject_others p aid apps) = length apps"
  by (simp add: reject_others_def)

lemma nth_reject_others:
  "i < length apps \<Longrightarrow> reject_others p aid apps ! i =
     (if app_project (apps ! i) = p \<and> i \<noteq> aid
         \<and> (app_status (apps ! i) = Pending \<or> app_status (apps ! i) = Accepted)
      then (apps ! i)\<lparr>app_status := Rejected\<rparr> else apps ! i)"
  by (simp add: reject_others_def nth_updateMany)

lemma award_project_client [simp]: "project_client (award_project aid a p) = project_client p"
  by (simp add: award_project_def)

lemma award_project_status [simp]: "project_status (award_project aid a p) = ProjectAwarded"
  by (simp add: award_project_def)


section \<open>Closed chats\<close>

text \<open>
  Claim C10. A message, offer or not, sent to a chat whose status is \<^verbatim>\<open>closed\<close> leaves
  the store as it was: no Message is created and the Chat is unchanged. A participant of
  the chat is answered 400 (the checks that precede the closed-chat guard answer 400 too);
  the only earlier exit with another status is the 403 of a caller who is not in the chat.
\<close>

theorem closed_chat_rejects:
  assumes "findById (chats s) chatId = Some c" and "chat_status c = Closed"
  shows "snd (send_message chatId uid req s) = s \<and>
         (is_participant c uid \<longrightarrow> send_message chatId uid req s = (400, s))"
  using assms by (simp add: send_message_def)

theorem closed_chat_rejects_witness:
  "chat_status (chats (run closed_chat (example_store (Some 1000) None)) ! 0) = Closed \<and>
   send_message 0 1 (example_offer 800 NoTimeline)
     (run closed_chat (example_store (Some 1000) None))
     = (400, run closed_chat (example_store (Some 1000) None))"
proof -
  let ?st = "run closed_chat (example_store (Some 1000) None)"
  have "0 < length (chats ?st)"
    by code_simp
  then have c: "findById (chats ?st) 0 = Some (chats ?st ! 0)"
    by (rule findById_nth)
  have cl: "chat_status (chats ?st ! 0) = Closed"
    by code_simp
  have p: "is_participant (chats ?st ! 0) 1"
    by code_simp
  from closed_chat_rejects [OF c cl, of 1 "example_offer 800 NoTimeline"] p cl
  show ?thesis by simp
qed


section \<open>Awarding twice\<close>

lemma award_twice:
  assumes "award aid uid s = (200, s')"
  shows "award aid uid s' = (400, s')"
proof -
  from assms have u: "users s' = users s"
    by (auto simp: award_def Let_def split: option.splits if_splits)
  from assms have a: "aid < length (applications s)"
    and c: "findById (users s) (app_client (applications s ! aid)) \<noteq> None"
           "app_client (applications s ! aid) = uid"
    by (auto simp: award_def Let_def findById_Some_iff split: option.splits if_splits)
  from assms a have a': "findById (applications s') aid
       = Some ((applications s ! aid)\<lparr>app_status := Awarded\<rparr>)"
    by (auto simp: award_def Let_def findById_Some_iff nth_reject_others
             split: option.splits if_splits)
  with c u show ?thesis
    by (simp add: award_def)
qed

lemma update_status_twice:
  assumes "update_status aid uid AcceptApplication s = (200, s')"
  shows "update_status aid uid AcceptApplication s' = (400, s')"
proof -
  from assms have a: "aid < length (applications s)"
    and p: "app_project (applications s ! aid) < length (projects s)"
    and c: "project_client (projects s ! app_project (applications s ! aid)) = uid"
    by (auto simp: update_status_def Let_def findById_Some_iff split: option.splits if_splits)
  from assms a have a': "findById (applications s') aid
       = Some ((applications s ! aid)\<lparr>app_status := Awarded\<rparr>)"
    by (auto simp: update_status_def Let_def findById_Some_iff nth_reject_others
             split: option.splits if_splits)
  from assms p have p': "findById (projects s') (app_project (applications s ! aid))
       = Some (award_project aid (applications s ! aid)
                 (projects s ! app_project (applications s ! aid)))"
    by (auto simp: update_status_def Let_def findById_Some_iff
             split: option.splits if_splits)
  from a' p' c show ?thesis
    by (simp add: update_status_def)
qed

lemma respond_twice:
  assumes "respond aid uid AcceptApplication s = (200, s')"
  shows "respond aid uid AcceptApplication s' = (400, s')"
proof -
  from assms have a: "aid < length (applications s)"
    and p: "app_project (applications s ! aid) < length (projects s)"
    and c: "project_client (projects s ! app_project (applications s ! aid)) = uid"
    by (auto simp: respond_def Let_def findById_Some_iff split: option.splits if_splits)
  from assms a have a': "findById (applications s') aid
       = Some ((applications s ! aid)\<lparr>app_status := Awarded\<rparr>)"
    by (auto simp: respond_def Let_def findById_Some_iff nth_reject_others
             split: option.splits if_splits)
  from assms p have p': "findById (projects s') (app_project (applications s ! aid))
       = Some (award_project aid (applications s ! aid)
                 (projects s ! app_project (applications s ! aid)))"
    by (auto simp: respond_def Let_def findById_Some_iff
             split: option.splits if_splits)
  from a' p' c show ?thesis
    by (simp add: respond_def)
qed


text \<open>
  Claim C3. Each of the three routes that award an application answers 200 at most once
  for it: when a call has awarded the application, the same call made again is answered
  400 (the route's "already responded" or "must be pending or accepted" conflict) and the
  store, with every Application and Project in it, is exactly the store the first call
  left.
\<close>

theorem award_again_conflict:
  assumes "r \<in> {Award aid uid, UpdateStatus aid uid AcceptApplication,
                Respond aid uid AcceptApplication}"
    and "handle r s = (200, s')"
  shows "handle r s' = (400, s')"
  using assms by (auto simp: award_twice update_status_twice respond_twice)

theorem award_again_conflict_witness:
  "fst (handle (Award 0 0) (run two_applications (example_store (Some 1000) None))) = 200 \<and>
   handle (Award 0 0)
     (snd (handle (Award 0 0) (run two_applications (example_store (Some 1000) None))))
     = (400, snd (handle (Award 0 0) (run two_applications (example_store (Some 1000) None))))"
proof -
  let ?st = "run two_applications (example_store (Some 1000) None)"
  have code: "fst (handle (Award 0 0) ?st) = 200"
    by code_simp
  then have h: "handle (Award 0 0) ?st = (200, snd (handle (Award 0 0) ?st))"
    by (rule reply_eq)
  have "Award 0 0 \<in> {Award 0 0, UpdateStatus 0 0 AcceptApplication,
                      Respond 0 0 AcceptApplication}"
    by simp
  from award_again_conflict [OF this h] code show ?thesis by simp
qed


section \<open>Offers\<close>

lemma promote_application_fields [simp]:
  "users (promote_application c od s) = users s"
  "projects (promote_application c od s) = projects s"
  "chats (promote_application c od s) = chats s"
  "messages (promote_application c od s) = messages s"
  "workspaces (promote_application c od s) = workspaces s"
  "length (applications (promote_application c od s)) = length (applications s)"
  by (simp_all add: promote_application_def split: option.splits)

lemma lock_price_fields [simp]:
  "users (lock_price c m uid od s) = users s"
  "applications (lock_price c m uid od s) = applications s"
  "chats (lock_price c m uid od s) = chats s"
  "messages (lock_price c m uid od s) = messages s"
  "workspaces (lock_price c m uid od s) = workspaces s"
  "length (projects (lock_price c m uid od s)) = length (projects s)"
  by (simp_all add: lock_price_def split: option.splits)

lemma record_decline_fields [simp]:
  "users (record_decline c m uid od s) = users s"
  "applications (record_decline c m uid od s) = applications s"
  "chats (record_decline c m uid od s) = chats s"
  "messages (record_decline c m uid od s) = messages s"
  "workspaces (record_decline c m uid od s) = workspaces s"
  "length (projects (record_decline c m uid od s)) = length (projects s)"
  by (simp_all add: record_decline_def split: option.splits)

lemma decline_other_offers_fields [simp]:
  "users (decline_other_offers c i s) = users s"
  "applications (decline_other_offers c i s) = applications s"
  "chats (decline_other_offers c i s) = chats s"
  "projects (decline_other_offers c i s) = projects s"
  "workspaces (decline_other_offers c i s) = workspaces s"
  "length (messages (decline_other_offers c i s)) = length (messages s)"
  by (simp_all add: decline_other_offers_def)

lemma response_message_fields [simp]:
  "users (response_message c uid act s) = users s"
  "applications (response_message c uid act s) = applications s"
  "chats (response_message c uid act s) = chats s"
  "projects (response_message c uid act s) = projects s"
  "workspaces (response_message c uid act s) = workspaces s"
  "messages (response_message c uid act s) = messages s @
     [system_message c uid (if act = Accept then ''Offer accepted'' else ''Offer declined'')
        no_details]"
  by (simp_all add: response_message_def)

lemma accept_messages:
  assumes "respond_to_offer mid uid Accept s = (200, s')"
    and "findById (messages s) mid = Some m"
  shows "messages s' =
           updateMany (\<lambda>i x. msg_chat x = msg_chat m \<and> messageType x = OfferMessage
                              \<and> offerStatus x = Some OfferPending \<and> i \<noteq> mid)
                      (\<lambda>x. x\<lparr>offerStatus := Some OfferDeclined\<rparr>)
                      ((messages s)[mid := m\<lparr>offerStatus := Some OfferAccepted\<rparr>])
           @ [system_message (msg_chat m) uid ''Offer accepted'' no_details]"
  using assms
  by (auto simp: respond_to_offer_def Let_def decline_other_offers_def
           split: option.splits if_splits)

text \<open>
  Claim C5. When the acceptance of an offer is answered 200, no offer of that chat is
  pending any more: the accepted one is \<^verbatim>\<open>accepted\<close> and every other offer of the chat
  that was pending is \<^verbatim>\<open>declined\<close>.
\<close>

theorem accept_clears_pending_offers:
  assumes "respond_to_offer mid uid Accept s = (200, s')"
    and "findById (messages s) mid = Some m"
  shows "pending_offers (msg_chat m) s' = 0
       \<and> offerStatus (messages s' ! mid) = Some OfferAccepted
       \<and> (\<forall>i < length (messages s). i \<noteq> mid \<longrightarrow>
            msg_chat (messages s ! i) = msg_chat m \<longrightarrow>
            messageType (messages s ! i) = OfferMessage \<longrightarrow>
            offerStatus (messages s ! i) = Some OfferPending \<longrightarrow>
            offerStatus (messages s' ! i) = Some OfferDeclined)"
proof -
  let ?q = "\<lambda>i x. msg_chat x = msg_chat m \<and> messageType x = OfferMessage
                   \<and> offerStatus x = Some OfferPending \<and> i \<noteq> mid"
  let ?u = "\<lambda>x. x\<lparr>offerStatus := Some OfferDeclined\<rparr>"
  let ?xs = "(messages s)[mid := m\<lparr>offerStatus := Some OfferAccepted\<rparr>]"
  let ?P = "\<lambda>x. msg_chat x = msg_chat m \<and> messageType x = OfferMessage
                  \<and> offerStatus x = Some OfferPending"
  have ms: "messages s' = updateMany ?q ?u ?xs
              @ [system_message (msg_chat m) uid ''Offer accepted'' no_details]"
    using assms by (rule accept_messages)
  from assms(2) have mid: "mid < length (messages s)" "messages s ! mid = m"
    by (simp_all add: findById_Some_iff)
  have nth: "\<And>i. i < length (messages s) \<Longrightarrow>
      messages s' ! i = (if ?q i (?xs ! i) then ?u (?xs ! i) else ?xs ! i)"
    by (simp add: ms nth_append nth_updateMany)
  have none: "\<And>i. i < length (messages s) \<Longrightarrow> \<not> ?P (messages s' ! i)"
    using mid by (auto simp: nth nth_list_update)
  have "\<forall>x \<in> set (updateMany ?q ?u ?xs). \<not> ?P x"
  proof
    fix x assume "x \<in> set (updateMany ?q ?u ?xs)"
    then obtain i where i: "i < length (messages s)" "x = updateMany ?q ?u ?xs ! i"
      by (auto simp: in_set_conv_nth)
    then have "x = messages s' ! i"
      by (simp add: ms nth_append)
    with none i(1) show "\<not> ?P x" by simp
  qed
  then have "filter ?P (updateMany ?q ?u ?xs) = []"
    by (simp add: filter_empty_conv)
  then have c: "pending_offers (msg_chat m) s' = 0"
    by (simp add: pending_offers_def countDocuments_def ms system_message_def)
  have a: "offerStatus (messages s' ! mid) = Some OfferAccepted"
    using mid by (simp add: nth)
  have d: "\<forall>i < length (messages s). i \<noteq> mid \<longrightarrow>
            msg_chat (messages s ! i) = msg_chat m \<longrightarrow>
            messageType (messages s ! i) = OfferMessage \<longrightarrow>
            offerStatus (messages s ! i) = Some OfferPending \<longrightarrow>
            offerStatus (messages s' ! i) = Some OfferDeclined"
    by (simp add: nth)
  from c a d show ?thesis by blast
qed

theorem accept_clears_pending_offers_witness:
  "pending_offers 0 (run two_offers (example_store (Some 1000) None)) = 2 \<and>
   fst (respond_to_offer 1 0 Accept (run two_offers (example_store (Some 1000) None))) = 200 \<and>
   pending_offers 0
     (snd (respond_to_offer 1 0 Accept (run two_offers (example_store (Some 1000) None)))) = 0 \<and>
   map offerStatus
     (messages (snd (respond_to_offer 1 0 Accept
        (run two_offers (example_store (Some 1000) None)))))
     = [None, Some OfferAccepted, Some OfferDeclined, None]"
proof -
  let ?st = "run two_offers (example_store (Some 1000) None)"
  have before: "pending_offers 0 ?st = 2"
    by code_simp
  have code: "fst (respond_to_offer 1 0 Accept ?st) = 200"
    by code_simp
  then have h: "respond_to_offer 1 0 Accept ?st = (200, snd (respond_to_offer 1 0 Accept ?st))"
    by (rule reply_eq)
  have "1 < length (messages ?st)"
    by code_simp
  then have m: "findById (messages ?st) 1 = Some (messages ?st ! 1)"
    by (rule findById_nth)
  have c: "msg_chat (messages ?st ! 1) = 0"
    by code_simp
  have after: "map offerStatus (messages (snd (respond_to_offer 1 0 Accept ?st)))
     = [None, Some OfferAccepted, Some OfferDeclined, None]"
    by code_simp
  from accept_clears_pending_offers [OF h m] before code after c
  show ?thesis by simp
qed

lemma send_offer_created:
  assumes "send_message chatId uid req s = (201, s1)"
  shows "s1 = set_lastMessage chatId (length (messages s))
               (s\<lparr>messages := messages s @
                   [\<lparr>msg_chat = chatId, sender = uid, content = req_content req,
                     messageType = req_messageType req,
                     offerDetails = stored_details (req_offerDetails req),
                     offerStatus = (if req_messageType req = OfferMessage
                                    then Some OfferPending else None)\<rparr>]\<rparr>)"
proof -
  from assms have "create_message chatId uid req s = (201, s1)"
    by (simp add: send_message_def split: if_splits option.splits)
  then show ?thesis
    by (simp add: create_message_def split: if_splits)
qed

lemma accept_offer_effect:
  assumes "respond_to_offer mid uid Accept s = (200, s')"
    and "findById (messages s) mid = Some m"
    and "findById (chats s) (msg_chat m) = Some c"
  shows "s' = response_message (msg_chat m) uid Accept
               (decline_other_offers (msg_chat m) mid
                 (lock_price c m uid (offerDetails m)
                   (promote_application c (offerDetails m)
                     (s\<lparr>messages := (messages s)
                          [mid := m\<lparr>offerStatus := Some OfferAccepted\<rparr>]\<rparr>))))"
  using assms by (simp add: respond_to_offer_def Let_def split: if_splits)

lemma findOne_unique:
  assumes "i < length xs" and "q (xs ! i)" and "\<forall>j < length xs. q (xs ! j) \<longrightarrow> j = i"
  shows "findOne q xs = Some (i, xs ! i)"
proof (cases "findOne q xs")
  case None
  with assms(1,2) show ?thesis by (simp add: findOne_None_iff)
next
  case (Some e)
  from findOne_Some [OF Some] assms(3) have "fst e = i" by blast
  with findOne_Some [OF Some] Some show ?thesis by (cases e) simp
qed

lemma accept_offer_applications:
  assumes "respond_to_offer mid uid Accept s = (200, s')"
    and "findById (messages s) mid = Some m"
    and "findById (chats s) (msg_chat m) = Some c"
  shows "applications s' = applications (promote_application c (offerDetails m) s)"
  by (simp add: accept_offer_effect [OF assms] promote_application_def split: option.splits)

lemma accept_offer_projects:
  assumes "respond_to_offer mid uid Accept s = (200, s')"
    and "findById (messages s) mid = Some m"
    and "findById (chats s) (msg_chat m) = Some c"
  shows "projects s' = projects (lock_price c m uid (offerDetails m) s)"
  by (simp add: accept_offer_effect [OF assms] lock_price_def split: option.splits)

text \<open>
  Claim C4. Take a chat whose application is pending, where that application is the one
  the route's lookup finds (it belongs to the chat's project, its freelancer is one of
  the chat's first two participants, and no other application does), and whose project
  exists. When an offer of rate 5000 and timeline \<open>T\<close> is sent (201) and then accepted
  (200), which the route allows only to a participant who is not the sender, the project's
  \<^verbatim>\<open>agreedPrice\<close> is 5000, the application's \<^verbatim>\<open>proposedRate\<close> is 5000 and its status is
  \<^verbatim>\<open>accepted\<close>, not \<^verbatim>\<open>awarded\<close>.
\<close>

theorem offer_round_trip:
  assumes chat: "findById (chats s) chatId = Some c"
    and app: "findById (applications s) (chat_application c) = Some a"
    and pending: "app_status a = Pending"
    and project: "findById (projects s) (chat_project c) \<noteq> None"
    and matching: "app_project a = chat_project c"
        "app_freelancer a = part_user (participants c ! 0)
           \<or> app_freelancer a = part_user (participants c ! 1)"
    and only: "\<forall>j < length (applications s).
                 app_project (applications s ! j) = chat_project c \<and>
                 (app_freelancer (applications s ! j) = part_user (participants c ! 0)
                   \<or> app_freelancer (applications s ! j) = part_user (participants c ! 1))
                 \<longrightarrow> j = chat_application c"
    and sent: "send_message chatId senderId
                 \<lparr>req_content = body, req_messageType = OfferMessage,
                  req_offerDetails = Some \<lparr>od_proposedRate = Some 5000, od_timeline = T\<rparr>\<rparr> s
               = (201, s1)"
    and accepted: "respond_to_offer (length (messages s)) responderId Accept s1 = (200, s2)"
  shows "agreedPrice (projects s2 ! chat_project c) = Some 5000
       \<and> app_proposedRate (applications s2 ! chat_application c) = Some 5000
       \<and> app_status (applications s2 ! chat_application c) = Accepted"
proof -
  let ?od = "\<lparr>od_proposedRate = Some 5000, od_timeline = T\<rparr>"
  let ?m = "\<lparr>msg_chat = chatId, sender = senderId, content = body,
             messageType = OfferMessage, offerDetails = ?od,
             offerStatus = Some OfferPending\<rparr>"
  let ?c = "c\<lparr>lastMessage := Some (length (messages s))\<rparr>"
  from chat have cid: "chatId < length (chats s)" "chats s ! chatId = c"
    by (simp_all add: findById_Some_iff)
  note s1 = send_offer_created [OF sent]
  have m1: "findById (messages s1) (length (messages s)) = Some ?m"
    by (simp add: s1 findById_Some_iff stored_details_def)
  have c1: "findById (chats s1) (msg_chat ?m) = Some ?c"
    using cid by (simp add: s1 set_lastMessage_def findById_Some_iff)
  have od: "offerDetails ?m = ?od"
    by simp
  have a1: "applications s1 = applications s" and p1: "projects s1 = projects s"
    by (simp_all add: s1)
  from app have aid: "chat_application c < length (applications s)"
      "applications s ! chat_application c = a"
    by (simp_all add: findById_Some_iff)
  let ?q = "\<lambda>a. app_project a = chat_project c
                        \<and> (app_freelancer a = part_user (participants c ! 0)
                           \<or> app_freelancer a = part_user (participants c ! 1))"
  have "findOne ?q (applications s)
          = Some (chat_application c, applications s ! chat_application c)"
  proof (rule findOne_unique)
    show "chat_application c < length (applications s)"
      by (rule aid(1))
    show "?q (applications s ! chat_application c)"
      using matching by (simp add: aid(2))
    show "\<forall>j < length (applications s). ?q (applications s ! j) \<longrightarrow> j = chat_application c"
      by (rule only)
  qed
  then have found: "findOne ?q (applications s) = Some (chat_application c, a)"
    by (simp add: aid(2))
  have "applications s2 = applications (promote_application ?c (offerDetails ?m) s1)"
    using accepted m1 c1 by (rule accept_offer_applications)
  then have apps2: "applications s2 = (applications s)
       [chat_application c := a\<lparr>app_proposedRate := Some 5000, proposedTimeline := T,
                                 app_status := Accepted\<rparr>]"
    using found pending by (simp add: promote_application_def a1)
  from project have pid: "chat_project c < length (projects s)"
    by (simp add: findById_None_iff)
  have "projects s2 = projects (lock_price ?c ?m responderId (offerDetails ?m) s1)"
    using accepted m1 c1 by (rule accept_offer_projects)
  then have "agreedPrice (projects s2 ! chat_project c) = Some 5000"
    using pid by (simp add: lock_price_def findById_def p1)
  with apps2 aid show ?thesis by simp
qed

theorem offer_round_trip_witness:
  "app_status (applications (run one_chat (example_store (Some 1000) None)) ! 0) = Pending \<and>
   agreedPrice (projects
     (snd (respond_to_offer 1 1 Accept
        (snd (send_message 0 0 (example_offer 5000 (TimelineText ''one month''))
           (run one_chat (example_store (Some 1000) None)))))) ! 0) = Some 5000 \<and>
   app_proposedRate (applications
     (snd (respond_to_offer 1 1 Accept
        (snd (send_message 0 0 (example_offer 5000 (TimelineText ''one month''))
           (run one_chat (example_store (Some 1000) None)))))) ! 0) = Some 5000 \<and>
   app_status (applications
     (snd (respond_to_offer 1 1 Accept
        (snd (send_message 0 0 (example_offer 5000 (TimelineText ''one month''))
           (run one_chat (example_store (Some 1000) None)))))) ! 0) = Accepted"
proof -
  let ?st = "run one_chat (example_store (Some 1000) None)"
  let ?req = "\<lparr>req_content = ''offer'', req_messageType = OfferMessage,
               req_offerDetails = Some \<lparr>od_proposedRate = Some 5000,
                                         od_timeline = TimelineText ''one month''\<rparr>\<rparr>"
  let ?c = "chats ?st ! 0"
  have req: "example_offer 5000 (TimelineText ''one month'') = ?req"
    by (simp add: example_offer_def)
  have "0 < length (chats ?st)"
    by code_simp
  then have chat: "findById (chats ?st) 0 = Some ?c"
    by (rule findById_nth)
  have ca: "chat_application ?c = 0" and cp: "chat_project ?c = 0"
    by code_simp+
  have al: "length (applications ?st) = 1"
    by code_simp
  then have "chat_application ?c < length (applications ?st)"
    by (simp add: ca)
  then have app: "findById (applications ?st) (chat_application ?c)
                    = Some (applications ?st ! chat_application ?c)"
    by (rule findById_nth)
  have pending: "app_status (applications ?st ! chat_application ?c) = Pending"
    by code_simp
  have project: "findById (projects ?st) (chat_project ?c) \<noteq> None"
    by code_simp
  have m1: "app_project (applications ?st ! chat_application ?c) = chat_project ?c"
    by code_simp
  have m2: "app_freelancer (applications ?st ! chat_application ?c) = part_user (participants ?c ! 0)
           \<or> app_freelancer (applications ?st ! chat_application ?c) = part_user (participants ?c ! 1)"
    by code_simp
  have only: "\<forall>j < length (applications ?st).
                 app_project (applications ?st ! j) = chat_project ?c \<and>
                 (app_freelancer (applications ?st ! j) = part_user (participants ?c ! 0)
                   \<or> app_freelancer (applications ?st ! j) = part_user (participants ?c ! 1))
                 \<longrightarrow> j = chat_application ?c"
    by (simp add: al ca)
  have "fst (send_message 0 0 ?req ?st) = 201"
    by code_simp
  then have sent: "send_message 0 0 ?req ?st = (201, snd (send_message 0 0 ?req ?st))"
    by (rule reply_eq)
  have ml: "length (messages ?st) = 1"
    by code_simp
  have "fst (respond_to_offer 1 1 Accept (snd (send_message 0 0 ?req ?st))) = 200"
    by code_simp
  then have accepted: "respond_to_offer (length (messages ?st)) 1 Accept
                         (snd (send_message 0 0 ?req ?st))
       = (200, snd (respond_to_offer 1 1 Accept (snd (send_message 0 0 ?req ?st))))"
    unfolding ml by (rule reply_eq)
  from offer_round_trip [OF chat app pending project m1 m2 only sent accepted] pending
  show ?thesis
    by (simp add: req ca cp)
qed


section \<open>At most one award\<close>

lemma project_not_open_quiet:
  assumes "quiet_step s s'" and "project_not_open s p"
  shows "project_not_open s' p"
  using assms
  by (auto simp: quiet_step_def project_not_open_def findById_def split: if_splits)

lemma quiet_step_inv:
  assumes inv: "award_inv s" and q: "quiet_step s s'"
  shows "award_inv s'"
  unfolding award_inv_def
proof (intro allI impI conjI)
  fix i assume i: "i < length (applications s')"
  show "app_freelancer (applications s' ! i) < length (users s')"
  proof (cases "i < length (applications s)")
    case True
    with inv q show ?thesis by (simp add: award_inv_def quiet_step_def)
  next
    case False
    with q i show ?thesis by (simp add: quiet_step_def)
  qed
next
  fix i assume i: "i < length (applications s')"
    and aw: "app_status (applications s' ! i) = Awarded"
  from q i aw have old: "i < length (applications s)"
    by (fastforce simp: quiet_step_def)
  with q aw have aw0: "app_status (applications s ! i) = Awarded"
    and pr: "app_project (applications s' ! i) = app_project (applications s ! i)"
    by (auto simp: quiet_step_def)
  from inv old aw0 have "project_not_open s (app_project (applications s ! i))"
    by (simp add: award_inv_def)
  with q pr show "project_not_open s' (app_project (applications s' ! i))"
    by (simp add: project_not_open_quiet)
next
  fix i j assume i: "i < length (applications s')"
    and aw: "app_status (applications s' ! i) = Awarded"
    and j: "j < length (applications s')" "j \<noteq> i"
    and same: "app_project (applications s' ! j) = app_project (applications s' ! i)"
  from q i aw have old: "i < length (applications s)"
    by (fastforce simp: quiet_step_def)
  with q aw have aw0: "app_status (applications s ! i) = Awarded"
    and pr: "app_project (applications s' ! i) = app_project (applications s ! i)"
    by (auto simp: quiet_step_def)
  from inv old aw0 have closed: "project_not_open s (app_project (applications s ! i))"
    and sib: "\<And>k. k < length (applications s) \<Longrightarrow> k \<noteq> i \<Longrightarrow>
        app_project (applications s ! k) = app_project (applications s ! i) \<Longrightarrow>
        app_status (applications s ! k) = Rejected \<or> app_status (applications s ! k) = Withdrawn"
    by (simp_all add: award_inv_def)
  show "app_status (applications s' ! j) = Rejected \<or> app_status (applications s' ! j) = Withdrawn"
  proof (cases "j < length (applications s)")
    case True
    with q have pj: "app_project (applications s' ! j) = app_project (applications s ! j)"
      and st: "app_status (applications s' ! j) = app_status (applications s ! j)
            \<or> (app_status (applications s ! j) = Pending
                  \<or> app_status (applications s ! j) = Accepted)"
      by (auto simp: quiet_step_def)
    from sib [OF True j(2)] same pj pr
    have "app_status (applications s ! j) = Rejected \<or> app_status (applications s ! j) = Withdrawn"
      by simp
    with st show ?thesis by auto
  next
    case False
    with q j(1) have "\<not> project_not_open s (app_project (applications s' ! j))"
      by (simp add: quiet_step_def)
    with closed same pr show ?thesis by simp
  qed
qed

lemma award_step_inv:
  assumes inv: "award_inv s" and a: "award_step aid s s'"
  shows "award_inv s'"
  unfolding award_inv_def
proof (intro allI impI conjI)
  fix i assume i: "i < length (applications s')"
  with inv a show "app_freelancer (applications s' ! i) < length (users s')"
    by (simp add: award_inv_def award_step_def)
next
  fix i assume i: "i < length (applications s')"
    and aw: "app_status (applications s' ! i) = Awarded"
  from a i have old: "i < length (applications s)"
    by (simp add: award_step_def)
  show "project_not_open s' (app_project (applications s' ! i))"
  proof (cases "i = aid")
    case True
    with a old show ?thesis
      by (simp add: award_step_def project_not_open_def findById_def)
  next
    case False
    with a old aw have aw0: "app_status (applications s ! i) = Awarded"
      by (auto simp: award_step_def split: if_splits)
    with inv old have "project_not_open s (app_project (applications s ! i))"
      by (simp add: award_inv_def)
    with a old show ?thesis
      by (auto simp: award_step_def project_not_open_def findById_def split: if_splits)
  qed
next
  fix i j assume i: "i < length (applications s')"
    and aw: "app_status (applications s' ! i) = Awarded"
    and j: "j < length (applications s')" "j \<noteq> i"
    and same: "app_project (applications s' ! j) = app_project (applications s' ! i)"
  from a i j have old: "i < length (applications s)" "j < length (applications s)"
    by (simp_all add: award_step_def)
  from a have aid: "aid < length (applications s)"
    and act: "app_status (applications s ! aid) = Pending
               \<or> app_status (applications s ! aid) = Accepted"
    by (simp_all add: award_step_def)
  from a old same have same0: "app_project (applications s ! j) = app_project (applications s ! i)"
    by (simp add: award_step_def)
  have sib: "\<And>w k. w < length (applications s) \<Longrightarrow> app_status (applications s ! w) = Awarded \<Longrightarrow>
        k < length (applications s) \<Longrightarrow> k \<noteq> w \<Longrightarrow>
        app_project (applications s ! k) = app_project (applications s ! w) \<Longrightarrow>
        app_status (applications s ! k) = Rejected \<or> app_status (applications s ! k) = Withdrawn"
    using inv by (simp add: award_inv_def)
  from a old have stj: "app_status (applications s' ! j) =
           (if j = aid then Awarded
            else if app_project (applications s ! j) = app_project (applications s ! aid)
                    \<and> (app_status (applications s ! j) = Pending
                         \<or> app_status (applications s ! j) = Accepted)
              then Rejected
            else app_status (applications s ! j))"
    by (simp add: award_step_def)
  show "app_status (applications s' ! j) = Rejected \<or> app_status (applications s' ! j) = Withdrawn"
  proof (cases "i = aid")
    case True
    show ?thesis
    proof (cases "app_status (applications s ! j) = Awarded")
      case True
      from sib [OF old(2) True aid] \<open>i = aid\<close> j(2) same0 act show ?thesis by auto
    next
      case False
      with stj \<open>i = aid\<close> j(2) same0 show ?thesis
        by (cases "app_status (applications s ! j)") auto
    qed
  next
    case False
    with a old aw have aw0: "app_status (applications s ! i) = Awarded"
      by (auto simp: award_step_def split: if_splits)
    from sib [OF old(1) aw0 old(2) j(2) same0]
    have rj: "app_status (applications s ! j) = Rejected \<or> app_status (applications s ! j) = Withdrawn" .
    have "j \<noteq> aid"
      using rj act by auto
    with stj rj show ?thesis by auto
  qed
qed

lemma quiet_same:
  assumes "users s' = users s" "projects s' = projects s" "applications s' = applications s"
  shows "quiet_step s s'"
  using assms by (simp add: quiet_step_def)

lemma send_message_quiet: "quiet_step s (snd (send_message chatId uid req s))"
proof (rule quiet_same)
  show "users (snd (send_message chatId uid req s)) = users s"
    by (simp add: send_message_def create_message_def split: option.splits)
  show "projects (snd (send_message chatId uid req s)) = projects s"
    by (simp add: send_message_def create_message_def split: option.splits)
  show "applications (snd (send_message chatId uid req s)) = applications s"
    by (simp add: send_message_def create_message_def split: option.splits)
qed

lemma close_chat_quiet: "quiet_step s (snd (close_chat chatId uid s))"
proof (rule quiet_same)
  show "users (snd (close_chat chatId uid s)) = users s"
    by (simp add: close_chat_def split: option.splits)
  show "projects (snd (close_chat chatId uid s)) = projects s"
    by (simp add: close_chat_def split: option.splits)
  show "applications (snd (close_chat chatId uid s)) = applications s"
    by (simp add: close_chat_def split: option.splits)
qed

lemma create_chat_quiet: "quiet_step s (snd (create_chat aid uid s))"
proof (rule quiet_same)
  show "users (snd (create_chat aid uid s)) = users s"
    by (simp add: create_chat_def split: option.splits)
  show "projects (snd (create_chat aid uid s)) = projects s"
    by (simp add: create_chat_def split: option.splits)
  show "applications (snd (create_chat aid uid s)) = applications s"
    by (simp add: create_chat_def split: option.splits)
qed

lemma chat_award_quiet: "quiet_step s (snd (chat_award chatId uid r t s))"
proof -
  have u: "users (snd (chat_award chatId uid r t s)) = users s"
    and a: "applications (snd (chat_award chatId uid r t s)) = applications s"
    by (simp_all add: chat_award_def split: option.splits)
  have l: "length (projects (snd (chat_award chatId uid r t s))) = length (projects s)"
    by (simp add: chat_award_def split: option.splits)
  have p: "\<And>k. k < length (projects s) \<Longrightarrow>
      project_status (projects (snd (chat_award chatId uid r t s)) ! k)
        = project_status (projects s ! k)
      \<or> project_status (projects (snd (chat_award chatId uid r t s)) ! k) \<noteq> Open"
    by (auto simp: chat_award_def nth_list_update findById_Some_iff split: option.splits)
  from u a l p show ?thesis
    by (simp add: quiet_step_def)
qed

lemma withdraw_quiet: "quiet_step s (snd (withdraw aid uid s))"
proof -
  have u: "users (snd (withdraw aid uid s)) = users s"
    and p: "projects (snd (withdraw aid uid s)) = projects s"
    and l: "length (applications (snd (withdraw aid uid s))) = length (applications s)"
    by (simp_all add: withdraw_def split: option.splits)
  have a: "\<And>i. i < length (applications s) \<Longrightarrow>
      app_project (applications (snd (withdraw aid uid s)) ! i) = app_project (applications s ! i) \<and>
      app_freelancer (applications (snd (withdraw aid uid s)) ! i)
        = app_freelancer (applications s ! i) \<and>
      (app_status (applications (snd (withdraw aid uid s)) ! i) = app_status (applications s ! i)
        \<or> (app_status (applications s ! i) = Pending \<or> app_status (applications s ! i) = Accepted)
           \<and> app_status (applications (snd (withdraw aid uid s)) ! i) \<noteq> Awarded)"
    by (auto simp: withdraw_def nth_list_update findById_Some_iff split: option.splits)
  from u p l a show ?thesis
    by (simp add: quiet_step_def)
qed

lemma submit_quiet: "quiet_step s (snd (submit uid req s))"
proof -
  have u: "users (snd (submit uid req s)) = users s"
    and p: "projects (snd (submit uid req s)) = projects s"
    by (simp_all add: submit_def split: option.splits)
  have c: "applications (snd (submit uid req s)) = applications s
      \<or> (\<exists>a. applications (snd (submit uid req s)) = applications s @ [a]
             \<and> app_status a = Pending \<and> app_freelancer a < length (users s)
             \<and> \<not> project_not_open s (app_project a))"
    by (auto simp: submit_def project_not_open_def findById_Some_iff findById_None_iff
             split: option.splits)
  then show ?thesis
  proof
    assume "applications (snd (submit uid req s)) = applications s"
    with u p show ?thesis by (simp add: quiet_same)
  next
    assume "\<exists>a. applications (snd (submit uid req s)) = applications s @ [a]
             \<and> app_status a = Pending \<and> app_freelancer a < length (users s)
             \<and> \<not> project_not_open s (app_project a)"
    then obtain a where a: "applications (snd (submit uid req s)) = applications s @ [a]"
      "app_status a = Pending" "app_freelancer a < length (users s)"
      "\<not> project_not_open s (app_project a)"
      by blast
    have "\<And>i. i < Suc (length (applications s)) \<Longrightarrow> length (applications s) \<le> i \<Longrightarrow>
             i = length (applications s)"
      by simp
    with a u p show ?thesis
      by (auto simp: quiet_step_def nth_append)
  qed
qed

lemma promote_application_nth:
  assumes "i < length (applications s)"
  shows "app_project (applications (promote_application c od s) ! i)
           = app_project (applications s ! i) \<and>
         app_freelancer (applications (promote_application c od s) ! i)
           = app_freelancer (applications s ! i) \<and>
         (app_status (applications (promote_application c od s) ! i)
            = app_status (applications s ! i)
          \<or> app_status (applications s ! i) = Pending
            \<and> app_status (applications (promote_application c od s) ! i) = Accepted)"
proof (cases "findOne (\<lambda>a. app_project a = chat_project c
                        \<and> (app_freelancer a = part_user (participants c ! 0)
                           \<or> app_freelancer a = part_user (participants c ! 1)))
             (applications s)")
  case None
  then show ?thesis by (simp add: promote_application_def)
next
  case (Some e)
  from findOne_Some [OF Some] have "fst e < length (applications s)"
    "snd e = applications s ! fst e"
    by simp_all
  with Some assms show ?thesis
    by (simp add: promote_application_def nth_list_update)
qed

lemma lock_price_status:
  "k < length (projects s) \<Longrightarrow>
   project_status (projects (lock_price c m uid od s) ! k) = project_status (projects s ! k)"
  by (auto simp: lock_price_def nth_list_update findById_Some_iff split: option.splits)

lemma record_decline_status:
  "k < length (projects s) \<Longrightarrow>
   project_status (projects (record_decline c m uid od s) ! k) = project_status (projects s ! k)"
  by (auto simp: record_decline_def nth_list_update findById_Some_iff split: option.splits)

lemma promote_application_messages_irrelevant:
  "applications (promote_application c od (s\<lparr>messages := ms\<rparr>))
     = applications (promote_application c od s)"
  by (simp add: promote_application_def split: option.splits)

lemma lock_price_messages_irrelevant:
  "projects (lock_price c m uid od (s\<lparr>messages := ms\<rparr>)) = projects (lock_price c m uid od s)"
  by (simp add: lock_price_def split: option.splits)

lemma lock_price_applications_irrelevant:
  "projects (lock_price c m uid od (promote_application c' od' s))
     = projects (lock_price c m uid od s)"
  by (simp add: lock_price_def split: option.splits)

lemma record_decline_messages_irrelevant:
  "projects (record_decline c m uid od (s\<lparr>messages := ms\<rparr>))
     = projects (record_decline c m uid od s)"
  by (simp add: record_decline_def split: option.splits)

lemma respond_to_offer_users: "users (snd (respond_to_offer mid uid act s)) = users s"
  by (simp add: respond_to_offer_def Let_def split: option.splits)

lemma respond_to_offer_applications:
  "applications (snd (respond_to_offer mid uid act s)) = applications s
   \<or> (\<exists>c od. applications (snd (respond_to_offer mid uid act s))
                = applications (promote_application c od s))"
  by (auto simp: respond_to_offer_def Let_def promote_application_messages_irrelevant
           split: option.splits)

lemma respond_to_offer_projects:
  "projects (snd (respond_to_offer mid uid act s)) = projects s
   \<or> (\<exists>c m od. projects (snd (respond_to_offer mid uid act s))
                = projects (lock_price c m uid od s))
   \<or> (\<exists>c m od. projects (snd (respond_to_offer mid uid act s))
                = projects (record_decline c m uid od s))"
  by (auto simp: respond_to_offer_def Let_def lock_price_messages_irrelevant
                 lock_price_applications_irrelevant record_decline_messages_irrelevant
           split: option.splits) blast+

lemma respond_to_offer_quiet: "quiet_step s (snd (respond_to_offer mid uid act s))"
proof -
  let ?s' = "snd (respond_to_offer mid uid act s)"
  have u: "users ?s' = users s"
    by (rule respond_to_offer_users)
  have pl: "length (projects ?s') = length (projects s)"
    using respond_to_offer_projects [of mid uid act s] by auto
  have ps: "\<And>k. k < length (projects s) \<Longrightarrow>
              project_status (projects ?s' ! k) = project_status (projects s ! k)"
    using respond_to_offer_projects [of mid uid act s]
    by (auto simp: lock_price_status record_decline_status)
  have al: "length (applications ?s') = length (applications s)"
    using respond_to_offer_applications [of mid uid act s] by auto
  have as: "\<And>i. i < length (applications s) \<Longrightarrow>
      app_project (applications ?s' ! i) = app_project (applications s ! i) \<and>
      app_freelancer (applications ?s' ! i) = app_freelancer (applications s ! i) \<and>
      (app_status (applications ?s' ! i) = app_status (applications s ! i)
        \<or> (app_status (applications s ! i) = Pending \<or> app_status (applications s ! i) = Accepted)
           \<and> app_status (applications ?s' ! i) \<noteq> Awarded)"
  proof -
    fix i assume i: "i < length (applications s)"
    from respond_to_offer_applications [of mid uid act s]
    show "app_project (applications ?s' ! i) = app_project (applications s ! i) \<and>
      app_freelancer (applications ?s' ! i) = app_freelancer (applications s ! i) \<and>
      (app_status (applications ?s' ! i) = app_status (applications s ! i)
        \<or> (app_status (applications s ! i) = Pending \<or> app_status (applications s ! i) = Accepted)
           \<and> app_status (applications ?s' ! i) \<noteq> Awarded)"
    proof
      assume "applications ?s' = applications s"
      then show ?thesis by simp
    next
      assume "\<exists>c od. applications ?s' = applications (promote_application c od s)"
      then obtain c od where e: "applications ?s' = applications (promote_application c od s)"
        by blast
      from promote_application_nth [OF i, of c od] show ?thesis
        unfolding e by auto
    qed
  qed
  from u pl ps al as show ?thesis
    by (simp add: quiet_step_def)
qed

lemma reject_quiet:
  assumes "aid < length (applications s)"
    and "app_status (applications s ! aid) = Pending
         \<or> app_status (applications s ! aid) = Accepted"
    and "s' = s\<lparr>applications :=
                 (applications s)[aid := (applications s ! aid)\<lparr>app_status := Rejected\<rparr>]\<rparr>"
  shows "quiet_step s s'"
  using assms by (auto simp: quiet_step_def nth_list_update)

lemma award_stepI:
  assumes aid: "aid < length (applications s)"
    and act: "app_status (applications s ! aid) = Pending
              \<or> app_status (applications s ! aid) = Accepted"
    and pid: "app_project (applications s ! aid) < length (projects s)"
    and u: "users s' = users s"
    and p: "projects s' = (projects s)
              [app_project (applications s ! aid) :=
                 award_project aid (applications s ! aid)
                   (projects s ! app_project (applications s ! aid))]"
    and a: "applications s' =
              (reject_others (app_project (applications s ! aid)) aid (applications s))
                [aid := (applications s ! aid)\<lparr>app_status := Awarded\<rparr>]
            \<or> applications s' =
              reject_others (app_project (applications s ! aid)) aid
                ((applications s)[aid := (applications s ! aid)\<lparr>app_status := Awarded\<rparr>])"
  shows "award_step aid s s'"
proof -
  have l: "length (applications s') = length (applications s)"
    using a by auto
  have n: "\<And>i. i < length (applications s) \<Longrightarrow>
      applications s' ! i =
        (if i = aid then (applications s ! aid)\<lparr>app_status := Awarded\<rparr>
         else if app_project (applications s ! i) = app_project (applications s ! aid)
                 \<and> (app_status (applications s ! i) = Pending
                      \<or> app_status (applications s ! i) = Accepted)
           then (applications s ! i)\<lparr>app_status := Rejected\<rparr>
         else applications s ! i)"
    using a aid by (auto simp: nth_reject_others nth_list_update)
  have ps: "\<And>k. k < length (projects s) \<Longrightarrow>
      project_status (projects s' ! k) =
        (if k = app_project (applications s ! aid) then ProjectAwarded
         else project_status (projects s ! k))"
    using pid by (simp add: p nth_list_update)
  show ?thesis
    unfolding award_step_def
    using aid act u l ps by (auto simp: p n)
qed

lemma respond_cases:
  "snd (respond aid uid d s) = s
   \<or> (aid < length (applications s)
        \<and> (app_status (applications s ! aid) = Pending
             \<or> app_status (applications s ! aid) = Accepted)
        \<and> snd (respond aid uid d s) =
            s\<lparr>applications :=
                (applications s)[aid := (applications s ! aid)\<lparr>app_status := Rejected\<rparr>]\<rparr>)
   \<or> (aid < length (applications s)
        \<and> (app_status (applications s ! aid) = Pending
             \<or> app_status (applications s ! aid) = Accepted)
        \<and> app_project (applications s ! aid) < length (projects s)
        \<and> users (snd (respond aid uid d s)) = users s
        \<and> projects (snd (respond aid uid d s)) = (projects s)
              [app_project (applications s ! aid) :=
                 award_project aid (applications s ! aid)
                   (projects s ! app_project (applications s ! aid))]
        \<and> applications (snd (respond aid uid d s)) =
              (reject_others (app_project (applications s ! aid)) aid (applications s))
                [aid := (applications s ! aid)\<lparr>app_status := Awarded\<rparr>])"
  by (auto simp: respond_def Let_def findById_Some_iff split: option.splits)

lemma update_status_cases:
  "snd (update_status aid uid d s) = s
   \<or> (aid < length (applications s)
        \<and> (app_status (applications s ! aid) = Pending
             \<or> app_status (applications s ! aid) = Accepted)
        \<and> snd (update_status aid uid d s) =
            s\<lparr>applications :=
                (applications s)[aid := (applications s ! aid)\<lparr>app_status := Rejected\<rparr>]\<rparr>)
   \<or> (aid < length (applications s)
        \<and> (app_status (applications s ! aid) = Pending
             \<or> app_status (applications s ! aid) = Accepted)
        \<and> app_project (applications s ! aid) < length (projects s)
        \<and> users (snd (update_status aid uid d s)) = users s
        \<and> projects (snd (update_status aid uid d s)) = (projects s)
              [app_project (applications s ! aid) :=
                 award_project aid (applications s ! aid)
                   (projects s ! app_project (applications s ! aid))]
        \<and> applications (snd (update_status aid uid d s)) =
              (reject_others (app_project (applications s ! aid)) aid (applications s))
                [aid := (applications s ! aid)\<lparr>app_status := Awarded\<rparr>])"
  by (auto simp: update_status_def Let_def findById_Some_iff split: option.splits)

lemma award_cases:
  "snd (award aid uid s) = s
   \<or> (aid < length (applications s)
        \<and> \<not> app_freelancer (applications s ! aid) < length (users s))
   \<or> (aid < length (applications s)
        \<and> (app_status (applications s ! aid) = Pending
             \<or> app_status (applications s ! aid) = Accepted)
        \<and> app_project (applications s ! aid) < length (projects s)
        \<and> users (snd (award aid uid s)) = users s
        \<and> projects (snd (award aid uid s)) = (projects s)
              [app_project (applications s ! aid) :=
                 award_project aid (applications s ! aid)
                   (projects s ! app_project (applications s ! aid))]
        \<and> applications (snd (award aid uid s)) =
              reject_others (app_project (applications s ! aid)) aid
                ((applications s)[aid := (applications s ! aid)\<lparr>app_status := Awarded\<rparr>]))"
  by (auto simp: award_def Let_def findById_Some_iff findById_None_iff split: option.splits)

lemma quiet_refl: "quiet_step s s"
  by (simp add: quiet_step_def)

lemma respond_step:
  "quiet_step s (snd (respond aid uid d s)) \<or> award_step aid s (snd (respond aid uid d s))"
  using respond_cases [of aid uid d s]
  by (elim disjE conjE) (simp_all add: quiet_refl reject_quiet award_stepI)

lemma update_status_step:
  "quiet_step s (snd (update_status aid uid d s))
   \<or> award_step aid s (snd (update_status aid uid d s))"
  using update_status_cases [of aid uid d s]
  by (elim disjE conjE) (simp_all add: quiet_refl reject_quiet award_stepI)

lemma award_route_step:
  assumes "award_inv s"
  shows "quiet_step s (snd (award aid uid s)) \<or> award_step aid s (snd (award aid uid s))"
  using award_cases [of aid uid s]
proof (elim disjE conjE)
  assume "snd (award aid uid s) = s"
  then show ?thesis by (simp add: quiet_refl)
next
  assume "aid < length (applications s)"
    "\<not> app_freelancer (applications s ! aid) < length (users s)"
  with assms show ?thesis by (simp add: award_inv_def)
next
  assume "aid < length (applications s)"
    "app_status (applications s ! aid) = Pending" 
    "app_project (applications s ! aid) < length (projects s)"
    "users (snd (award aid uid s)) = users s"
    "projects (snd (award aid uid s)) = (projects s)
              [app_project (applications s ! aid) :=
                 award_project aid (applications s ! aid)
                   (projects s ! app_project (applications s ! aid))]"
    "applications (snd (award aid uid s)) =
              reject_others (app_project (applications s ! aid)) aid
                ((applications s)[aid := (applications s ! aid)\<lparr>app_status := Awarded\<rparr>])"
  then show ?thesis by (simp add: award_stepI)
next
  assume "aid < length (applications s)"
    "app_status (applications s ! aid) = Accepted" 
    "app_project (applications s ! aid) < length (projects s)"
    "users (snd (award aid uid s)) = users s"
    "projects (snd (award aid uid s)) = (projects s)
              [app_project (applications s ! aid) :=
                 award_project aid (applications s ! aid)
                   (projects s ! app_project (applications s ! aid))]"
    "applications (snd (award aid uid s)) =
              reject_others (app_project (applications s ! aid)) aid
                ((applications s)[aid := (applications s ! aid)\<lparr>app_status := Awarded\<rparr>])"
  then show ?thesis by (simp add: award_stepI)
qed

lemma filter_at_most_one:
  assumes "\<And>i j. i < length xs \<Longrightarrow> j < length xs \<Longrightarrow> P (xs ! i) \<Longrightarrow> P (xs ! j) \<Longrightarrow> i = j"
  shows "length (filter P xs) \<le> 1"
  using assms
proof (induction xs)
  case Nil
  then show ?case by simp
next
  case (Cons x xs)
  show ?case
  proof (cases "P x")
    case True
    have "\<not> P y" if "y \<in> set xs" for y
    proof
      assume "P y"
      from that obtain j where j: "j < length xs" "xs ! j = y"
        by (auto simp: in_set_conv_nth)
      with True \<open>P y\<close> Cons.prems [of 0 "Suc j"] show False by simp
    qed
    then have "filter P xs = []"
      by (simp add: filter_empty_conv)
    with True show ?thesis by simp
  next
    case False
    have "length (filter P xs) \<le> 1"
    proof (rule Cons.IH)
      fix i j assume "i < length xs" "j < length xs" "P (xs ! i)" "P (xs ! j)"
      with Cons.prems [of "Suc i" "Suc j"] show "i = j" by simp
    qed
    with False show ?thesis by simp
  qed
qed

lemma awarded_count_le_one:
  assumes "award_inv s"
  shows "awarded_count p s \<le> 1"
  unfolding awarded_count_def countDocuments_def
proof (rule filter_at_most_one)
  fix i j
  assume i: "i < length (applications s)" and j: "j < length (applications s)"
    and pi: "app_project (applications s ! i) = p \<and> app_status (applications s ! i) = Awarded"
    and pj: "app_project (applications s ! j) = p \<and> app_status (applications s ! j) = Awarded"
  show "i = j"
  proof (rule ccontr)
    assume "i \<noteq> j"
    with assms i j pi pj
    have "app_status (applications s ! j) = Rejected \<or> app_status (applications s ! j) = Withdrawn"
      unfolding award_inv_def by blast
    with pj show False by simp
  qed
qed

lemma handle_step:
  assumes "award_inv s"
  shows "quiet_step s (snd (handle r s)) \<or> (\<exists>aid. award_step aid s (snd (handle r s)))"
proof (cases r)
  case (Submit uid req)
  then show ?thesis by (simp add: submit_quiet)
next
  case (Respond aid uid d)
  with respond_step [of s aid uid d] show ?thesis by auto
next
  case (UpdateStatus aid uid d)
  with update_status_step [of s aid uid d] show ?thesis by auto
next
  case (Withdraw aid uid)
  then show ?thesis by (simp add: withdraw_quiet)
next
  case (Award aid uid)
  with award_route_step [OF assms, of aid uid] show ?thesis by auto
next
  case (CreateChat aid uid)
  then show ?thesis by (simp add: create_chat_quiet)
next
  case (SendMessage cid uid req)
  then show ?thesis by (simp add: send_message_quiet)
next
  case (RespondToOffer mid uid act)
  then show ?thesis by (simp add: respond_to_offer_quiet)
next
  case (CloseChat cid uid)
  then show ?thesis by (simp add: close_chat_quiet)
next
  case (ChatAward cid uid r t)
  then show ?thesis by (simp add: chat_award_quiet)
qed

lemma handle_inv:
  assumes "award_inv s"
  shows "award_inv (snd (handle r s))"
  using handle_step [OF assms, of r] assms
  by (auto intro: quiet_step_inv award_step_inv)

lemma run_inv: "award_inv s \<Longrightarrow> award_inv (run reqs s)"
  unfolding run_def
  by (induction reqs arbitrary: s) (simp_all add: handle_inv)

lemma no_applications_inv: "applications s = [] \<Longrightarrow> award_inv s"
  by (simp add: award_inv_def)

text \<open>
  Claim C2. Start from a store that satisfies the invariant (any store without
  applications does) and serve any list of requests. In the store \<open>s\<close> reached, and in
  the store \<open>s'\<close> after one more request, every project has at most one awarded
  application. No request creates an application as awarded, and a request that moves an
  application to \<^verbatim>\<open>awarded\<close> leaves every sibling of the same project that was pending or
  accepted \<^verbatim>\<open>rejected\<close>.
\<close>

theorem at_most_one_award:
  assumes "award_inv s0" and "s = run reqs s0" and "handle r s = (code, s')"
  shows "awarded_count p s \<le> 1 \<and> awarded_count p s' \<le> 1 \<and>
         (\<forall>i < length (applications s').
            length (applications s) \<le> i \<longrightarrow> app_status (applications s' ! i) \<noteq> Awarded) \<and>
         (\<forall>i < length (applications s).
            app_status (applications s ! i) \<noteq> Awarded \<longrightarrow>
            app_status (applications s' ! i) = Awarded \<longrightarrow>
            (\<forall>j < length (applications s).
               j \<noteq> i \<longrightarrow>
               app_project (applications s ! j) = app_project (applications s ! i) \<longrightarrow>
               app_status (applications s ! j) = Pending
                 \<or> app_status (applications s ! j) = Accepted \<longrightarrow>
               app_status (applications s' ! j) = Rejected))"
proof -
  from assms(1,2) have inv: "award_inv s"
    by (simp add: run_inv)
  from assms(3) have s': "s' = snd (handle r s)"
    by simp
  from inv have inv': "award_inv s'"
    unfolding s' by (rule handle_inv)
  from handle_step [OF inv, of r]
  have step: "quiet_step s s' \<or> (\<exists>aid. award_step aid s s')"
    by (simp add: s')
  have new: "\<forall>i < length (applications s').
            length (applications s) \<le> i \<longrightarrow> app_status (applications s' ! i) \<noteq> Awarded"
    using step by (auto simp: quiet_step_def award_step_def)
  have sib: "\<forall>i < length (applications s).
            app_status (applications s ! i) \<noteq> Awarded \<longrightarrow>
            app_status (applications s' ! i) = Awarded \<longrightarrow>
            (\<forall>j < length (applications s).
               j \<noteq> i \<longrightarrow>
               app_project (applications s ! j) = app_project (applications s ! i) \<longrightarrow>
               app_status (applications s ! j) = Pending
                 \<or> app_status (applications s ! j) = Accepted \<longrightarrow>
               app_status (applications s' ! j) = Rejected)"
    using step
  proof
    assume "quiet_step s s'"
    then show ?thesis by (auto simp: quiet_step_def)
  next
    assume "\<exists>aid. award_step aid s s'"
    then obtain aid where a: "award_step aid s s'" ..
    show ?thesis
    proof (intro allI impI)
      fix i j
      assume i: "i < length (applications s)"
        "app_status (applications s ! i) \<noteq> Awarded"
        "app_status (applications s' ! i) = Awarded"
        and j: "j < length (applications s)" "j \<noteq> i"
        "app_project (applications s ! j) = app_project (applications s ! i)"
        "app_status (applications s ! j) = Pending \<or> app_status (applications s ! j) = Accepted"
      from a i have "i = aid"
        by (auto simp: award_step_def split: if_splits)
      with a j show "app_status (applications s' ! j) = Rejected"
        by (simp add: award_step_def)
    qed
  qed
  from awarded_count_le_one [OF inv] awarded_count_le_one [OF inv'] new sib
  show ?thesis by blast
qed

theorem at_most_one_award_witness:
  "award_inv (example_store (Some 1000) None) \<and>
   fst (handle (Award 0 0) (run two_applications (example_store (Some 1000) None))) = 200 \<and>
   map app_status (applications (run two_applications (example_store (Some 1000) None)))
     = [Pending, Pending] \<and>
   map app_status
     (applications (snd (handle (Award 0 0)
        (run two_applications (example_store (Some 1000) None)))))
     = [Awarded, Rejected] \<and>
   awarded_count 0 (snd (handle (Award 0 0)
        (run two_applications (example_store (Some 1000) None)))) \<le> 1"
proof -
  let ?init = "example_store (Some 1000) None"
  let ?st = "run two_applications ?init"
  have inv: "award_inv ?init"
    by (simp add: award_inv_def example_store_def)
  have code: "fst (handle (Award 0 0) ?st) = 200"
    by code_simp
  then have h: "handle (Award 0 0) ?st = (200, snd (handle (Award 0 0) ?st))"
    by (simp add: prod_eq_iff)
  have before: "map app_status (applications ?st) = [Pending, Pending]"
    by code_simp
  have after: "map app_status (applications (snd (handle (Award 0 0) ?st))) = [Awarded, Rejected]"
    by code_simp
  from at_most_one_award [OF inv refl h, of 0] inv code before after
  show ?thesis by simp
qed


section \<open>The price lock\<close>

text \<open>Every request but the answer to an offer leaves the \<^verbatim>\<open>agreedPrice\<close> of every
  project as it was: sending a message or an offer and the three award routes never
  write it.\<close>

lemma map_update_same:
  "k < length xs \<Longrightarrow> f y = f (xs ! k) \<Longrightarrow> map f (xs[k := y]) = map f xs"
  by (simp add: map_update list_update_same_conv)

lemma agreedPrice_award_project [simp]: "agreedPrice (award_project aid a p) = agreedPrice p"
  by (simp add: award_project_def)

lemma agreedPrice_kept:
  assumes "\<And>mid uid act. r \<noteq> RespondToOffer mid uid act"
  shows "map agreedPrice (projects (snd (handle r s))) = map agreedPrice (projects s)"
proof (cases r)
  case (Submit uid req)
  then show ?thesis by (simp add: submit_def split: option.splits)
next
  case (Respond aid uid d)
  then show ?thesis
    by (auto simp: respond_def Let_def map_update_same findById_Some_iff split: option.splits)
next
  case (UpdateStatus aid uid d)
  then show ?thesis
    by (auto simp: update_status_def Let_def map_update_same findById_Some_iff
             split: option.splits)
next
  case (Withdraw aid uid)
  then show ?thesis by (simp add: withdraw_def split: option.splits)
next
  case (Award aid uid)
  then show ?thesis
    by (auto simp: award_def Let_def map_update_same findById_Some_iff split: option.splits)
next
  case (CreateChat aid uid)
  then show ?thesis by (simp add: create_chat_def split: option.splits)
next
  case (SendMessage cid uid req)
  then show ?thesis
    by (simp add: send_message_def create_message_def split: option.splits)
next
  case (RespondToOffer mid uid act)
  with assms show ?thesis by blast
next
  case (CloseChat cid uid)
  then show ?thesis by (simp add: close_chat_def split: option.splits)
next
  case (ChatAward cid uid rate t)
  then show ?thesis
    by (auto simp: chat_award_def map_update_same findById_Some_iff split: option.splits)
qed

text \<open>
  Claim C1, on the code: the price lock does not hold across the chats of a project.
  Two freelancers apply to the project of budget 1000 and the client opens a chat with
  each; an offer of 800 is pending in the first chat and one of 900 in the second. The
  client accepts the 800 offer and \<^verbatim>\<open>agreedPrice\<close> is 800. A new offer is now refused with
  400 ("Price is already locked"), but the offer of 900, sent before the lock, is still
  pending in the other chat: its acceptance is answered 200 and \<^verbatim>\<open>agreedPrice\<close> becomes
  900.
\<close>

theorem price_lock_overwritten:
  "agreedPrice (projects (run (two_chats @ [RespondToOffer 2 0 Accept])
      (example_store (Some 1000) None)) ! 0) = Some 800 \<and>
   fst (handle (SendMessage 1 2 (example_offer 850 NoTimeline))
      (run (two_chats @ [RespondToOffer 2 0 Accept]) (example_store (Some 1000) None))) = 400 \<and>
   fst (handle (RespondToOffer 3 2 Accept)
      (run (two_chats @ [RespondToOffer 2 0 Accept]) (example_store (Some 1000) None))) = 200 \<and>
   agreedPrice (projects (run (two_chats @ [RespondToOffer 2 0 Accept, RespondToOffer 3 2 Accept])
      (example_store (Some 1000) None)) ! 0) = Some 900"
  by code_simp


section \<open>The offer's timeline\<close>

lemma send_message_timeline:
  "fst (send_message chatId uid
          \<lparr>req_content = body, req_messageType = ty,
           req_offerDetails = Some \<lparr>od_proposedRate = r, od_timeline = t\<rparr>\<rparr> s)
   = fst (send_message chatId uid
          \<lparr>req_content = body, req_messageType = ty,
           req_offerDetails = Some \<lparr>od_proposedRate = r, od_timeline = t'\<rparr>\<rparr> s)"
  by (simp add: send_message_def create_message_def checked_rate_def split: option.splits)

lemma price_locked_deadline:
  "price_locked (findById ((projects s)[k := (projects s ! k)\<lparr>deadline := d\<rparr>]) p)
     = price_locked (findById (projects s) p)"
  by (cases "k = p") (auto simp: price_locked_def findById_def)

lemma exceeds_cap_deadline:
  "exceeds_cap r (findById ((projects s)[k := (projects s ! k)\<lparr>deadline := d\<rparr>]) p)
     = exceeds_cap r (findById (projects s) p)"
  by (cases "k = p") (auto simp: exceeds_cap_def findById_def)

lemma send_message_deadline:
  "fst (send_message chatId uid req
          (s\<lparr>projects := (projects s)[k := (projects s ! k)\<lparr>deadline := d\<rparr>]\<rparr>))
   = fst (send_message chatId uid req s)"
  by (simp add: send_message_def create_message_def price_locked_deadline exceeds_cap_deadline
           split: option.splits)

text \<open>The route reads neither the offer's timeline nor the project's deadline: the
  status of the answer is the same for any timeline and any deadline, and a created offer
  carries the timeline as it was sent.\<close>

lemma offer_timeline_not_checked:
  "fst (send_message chatId uid
          \<lparr>req_content = body, req_messageType = OfferMessage,
           req_offerDetails = Some \<lparr>od_proposedRate = r, od_timeline = t\<rparr>\<rparr>
          (s\<lparr>projects := (projects s)[k := (projects s ! k)\<lparr>deadline := d\<rparr>]\<rparr>))
   = fst (send_message chatId uid
          \<lparr>req_content = body, req_messageType = OfferMessage,
           req_offerDetails = Some \<lparr>od_proposedRate = r, od_timeline = t'\<rparr>\<rparr> s)
   \<and> (send_message chatId uid
          \<lparr>req_content = body, req_messageType = OfferMessage,
           req_offerDetails = Some \<lparr>od_proposedRate = r, od_timeline = t\<rparr>\<rparr> s = (201, s')
        \<longrightarrow> messages s' = messages s @
              [\<lparr>msg_chat = chatId, sender = uid, content = body, messageType = OfferMessage,
                offerDetails = \<lparr>od_proposedRate = r, od_timeline = t\<rparr>,
                offerStatus = Some OfferPending\<rparr>])"
proof -
  have "send_message chatId uid
          \<lparr>req_content = body, req_messageType = OfferMessage,
           req_offerDetails = Some \<lparr>od_proposedRate = r, od_timeline = t\<rparr>\<rparr> s = (201, s')
        \<Longrightarrow> messages s' = messages s @
              [\<lparr>msg_chat = chatId, sender = uid, content = body, messageType = OfferMessage,
                offerDetails = \<lparr>od_proposedRate = r, od_timeline = t\<rparr>,
                offerStatus = Some OfferPending\<rparr>]"
    by (drule send_offer_created) (simp add: stored_details_def)
  moreover have "fst (send_message chatId uid
          \<lparr>req_content = body, req_messageType = OfferMessage,
           req_offerDetails = Some \<lparr>od_proposedRate = r, od_timeline = t\<rparr>\<rparr>
          (s\<lparr>projects := (projects s)[k := (projects s ! k)\<lparr>deadline := d\<rparr>]\<rparr>))
   = fst (send_message chatId uid
          \<lparr>req_content = body, req_messageType = OfferMessage,
           req_offerDetails = Some \<lparr>od_proposedRate = r, od_timeline = t'\<rparr>\<rparr> s)"
    by (simp only: send_message_deadline send_message_timeline [where t = t and t' = t'])
  ultimately show ?thesis
    by blast
qed

text \<open>
  Claim C6, on the code: the project's deadline is 100 and a freelancer sends an offer
  whose timeline is the later date 200. The chat window's own check refuses it and sends
  nothing, but the same request made to the route is answered 201 and the offer Message is
  created.
\<close>

theorem late_offer_accepted:
  "deadline (projects (run one_chat (example_store (Some 1000) (Some 100))) ! 0) = Some 100 \<and>
   req_offerDetails late_offer = Some \<lparr>od_proposedRate = Some 800, od_timeline = TimelineDate 200\<rparr> \<and>
   handleSendOffer (Some 800) (TimelineDate 200) False RoleFreelancer
     (findById (projects (run one_chat (example_store (Some 1000) (Some 100)))) 0) = None \<and>
   fst (send_message 0 1 late_offer (run one_chat (example_store (Some 1000) (Some 100)))) = 201 \<and>
   map messageType
     (messages (snd (send_message 0 1 late_offer
        (run one_chat (example_store (Some 1000) (Some 100))))))
     = [SystemMessage, OfferMessage]"
  by code_simp


section \<open>The rate caps\<close>

text \<open>\<^verbatim>\<open>1000 * 1.20\<close> is the double 1200.\<close>

lemma maxAllowed_1000: "maxAllowed 1000 = Num 1200"
  by code_simp

text \<open>A project of budget 1000 that is open: an application at rate 1100 is answered 201,
  not 400.\<close>

theorem submit_1100_accepted:
  "budgetAmount (projects (example_store (Some 1000) None) ! 0) = Some 1000 \<and>
   project_status (projects (example_store (Some 1000) None) ! 0) = Open \<and>
   req_proposedRate (example_application 1100) = Some 1100 \<and>
   fst (submit 1 (example_application 1100) (example_store (Some 1000) None)) = 201"
  by code_simp

text \<open>
  Claim C7, as amended. For an open project with budget 1000 and a submission that
  passes the other checks of the route (profile complete, fields present, timeline within
  the deadline, no earlier application, fewer than 5 ongoing applications), a proposed
  rate of 1100 is answered 201 and so is 1150: both are within the cap of 1200. The answer
  is 400 exactly for the rates above 1200 (and for the rate 0, which counts as missing).
\<close>

theorem submit_cap_budget_1000:
  assumes "findById (users s) uid = Some f" and "isFreelancerProfileComplete f"
    and "req_projectId req = Some pid" and "req_coverLetter req \<noteq> []"
    and "req_proposedTimeline req \<noteq> NoTimeline"
    and "findById (projects s) pid = Some p" and "project_status p = Open"
    and "budgetAmount p = Some 1000"
    and "\<not> past_deadline (req_proposedTimeline req) p"
    and "findOne (\<lambda>a. app_project a = pid \<and> app_freelancer a = uid) (applications s) = None"
    and "countDocuments (\<lambda>a. app_freelancer a = uid
            \<and> (app_status a = Accepted \<or> app_status a = Awarded)) (applications s) < 5"
    and "findById (users s) (project_client p) \<noteq> None"
  shows "fst (submit uid (req\<lparr>req_proposedRate := Some 1100\<rparr>) s) = 201 \<and>
         fst (submit uid (req\<lparr>req_proposedRate := Some 1150\<rparr>) s) = 201 \<and>
         (\<forall>r. fst (submit uid (req\<lparr>req_proposedRate := Some r\<rparr>) s) =
               (if r = 0 \<or> r > 1200 then 400 else 201))"
proof -
  have "fst (submit uid (req\<lparr>req_proposedRate := Some r\<rparr>) s) =
               (if r = 0 \<or> r > 1200 then 400 else 201)" for r
    using assms
    by (auto simp: submit_def truthy_def rate_too_high_def maxAllowed_1000 js_greater_def)
  then show ?thesis by simp
qed

theorem submit_cap_budget_1000_witness:
  "fst (submit 1 (example_application 1100) (example_store (Some 1000) None)) = 201 \<and>
   fst (submit 1 (example_application 1150) (example_store (Some 1000) None)) = 201 \<and>
   fst (submit 1 (example_application 1201) (example_store (Some 1000) None)) = 400"
proof -
  let ?st = "example_store (Some 1000) None"
  let ?req = "example_application 1"
  have r: "\<And>x. ?req\<lparr>req_proposedRate := Some x\<rparr> = example_application x"
    by (simp add: example_application_def)
  have u: "findById (users ?st) 1 = Some example_freelancer"
    by (simp add: findById_def example_store_def)
  have c: "isFreelancerProfileComplete example_freelancer"
    by code_simp
  have p: "findById (projects ?st) 0 = Some (example_project (Some 1000) None)"
    by (simp add: findById_def example_store_def)
  have f: "findOne (\<lambda>a. app_project a = 0 \<and> app_freelancer a = 1) (applications ?st) = None"
    by (simp add: findOne_None_iff example_store_def)
  have n: "countDocuments (\<lambda>a. app_freelancer a = 1
            \<and> (app_status a = Accepted \<or> app_status a = Awarded)) (applications ?st) < 5"
    by (simp add: countDocuments_def example_store_def)
  have cl: "findById (users ?st) (project_client (example_project (Some 1000) None)) \<noteq> None"
    by (simp add: findById_def example_store_def example_project_def)
  have "fst (submit 1 (?req\<lparr>req_proposedRate := Some 1100\<rparr>) ?st) = 201 \<and>
         fst (submit 1 (?req\<lparr>req_proposedRate := Some 1150\<rparr>) ?st) = 201 \<and>
         (\<forall>r. fst (submit 1 (?req\<lparr>req_proposedRate := Some r\<rparr>) ?st) =
               (if r = 0 \<or> r > 1200 then 400 else 201))"
    using u c _ _ _ p _ _ _ f n cl
    by (rule submit_cap_budget_1000)
       (simp_all add: example_application_def example_project_def past_deadline_def)
  then show ?thesis
    unfolding r by simp
qed


text \<open>A project whose \<^verbatim>\<open>budgetAmount\<close> is 0: the guard \<^verbatim>\<open>project?.budgetAmount\<close> skips
  the cap, and the freelancer's offer of \<open>0 \<times> 1.20 + 1\<close> is answered 201.\<close>

lemma zero_budget_offer_accepted:
  "budgetAmount (projects zero_budget_store ! chat_project (chats zero_budget_store ! 0)) = Some 0 \<and>
   participant_role (chats zero_budget_store ! 0) 1 = Some Freelancer \<and>
   fst (send_message 0 1 (example_offer 1 NoTimeline) zero_budget_store) = 201"
  by code_simp

text \<open>A budget of \<open>10\<^sup>1\<^sup>6\<close>: \<^verbatim>\<open>maxAllowed\<close> is \<open>12 \<times> 10\<^sup>1\<^sup>5\<close>, beyond \<open>2\<^sup>5\<^sup>3\<close>, and
  \<^verbatim>\<open>maxAllowed + 1\<close> is \<^verbatim>\<open>maxAllowed\<close> again.\<close>

lemma huge_budget_plus_one:
  "to_double (10 ^ 16) = 10 ^ 16 \<and>
   maxAllowed (10 ^ 16) = Num (12 * 10 ^ 15) \<and>
   to_double (12 * 10 ^ 15 + 1) = 12 * 10 ^ 15"
  by code_simp




end
